theory Spec2Isabelle
  imports Complex_Main "HOL-Library.Word" "HOL-Library.Char_ord" "HOL-Library.List_Lexorder"
begin

unbundle bit_operations_syntax

section \<open>Conventions of the embedding\<close>

text \<open>
  The monitor is C++17. A \<^verbatim>\<open>double\<close> is embedded as a \<^typ>\<open>real\<close>: the arithmetic is
  exact, so rounding, infinities and NaN are outside the model. A \<^verbatim>\<open>std::optional<T>\<close> is
  a \<^typ>\<open>'a option\<close>, a \<^verbatim>\<open>std::vector<T>\<close> a list, a \<^verbatim>\<open>std::string\<close> a \<^typ>\<open>string\<close>
  (bytes, compared as unsigned bytes). \<^verbatim>\<open>unsigned long long\<close> tick counters are
  \<^typ>\<open>64 word\<close>, since their sums and differences wrap; \<^verbatim>\<open>uint16_t\<close> cell masks are
  \<^typ>\<open>16 word\<close>. A \<^verbatim>\<open>long long\<close> that is only read and converted is an \<^typ>\<open>int\<close>.
  What a function reads from \<^verbatim>\<open>/proc\<close>, \<^verbatim>\<open>/sys\<close> or a child process is an argument
  of its model, and a function-local \<^verbatim>\<open>static\<close> is a state that is passed in and returned.
\<close>

section \<open>linux\_utils.hpp\<close>

text \<open>
  \<^verbatim>\<open>startsWith\<close> is \<^verbatim>\<open>text.rfind(prefix, 0) == 0\<close> and \<^verbatim>\<open>endsWith\<close> compares the
  reversed ranges after a length check.
\<close>

definition startsWith :: "string \<Rightarrow> string \<Rightarrow> bool" where
  "startsWith text prefix = (take (length prefix) text = prefix)"

definition endsWith :: "string \<Rightarrow> string \<Rightarrow> bool" where
  "endsWith text suffix =
     (if length suffix > length text then False
      else take (length suffix) (rev text) = rev suffix)"

text \<open>
  \<^verbatim>\<open>toLower\<close> maps \<^verbatim>\<open>std::tolower\<close> over the bytes. The model is the "C" locale:
  only the bytes \<open>A..Z\<close> change.
\<close>

definition tolower_byte :: "char \<Rightarrow> char" where
  "tolower_byte c =
     (let n = (of_char c :: nat) in if 65 \<le> n \<and> n \<le> 90 then char_of (n + 32) else c)"

definition toLower :: "string \<Rightarrow> string" where
  "toLower v = map tolower_byte v"

text \<open>
  \<^verbatim>\<open>text.find(token) != std::string::npos\<close>, the test the probes use on names and
  sources: \<open>token\<close> occurs in \<open>text\<close> at some offset.
\<close>

fun find_not_npos :: "string \<Rightarrow> string \<Rightarrow> bool" where
  "find_not_npos [] token = (token = [])"
| "find_not_npos (c # cs) token = (startsWith (c # cs) token \<or> find_not_npos cs token)"

definition normalizePercent :: "int \<Rightarrow> real option" where
  "normalizePercent raw_value =
     (if raw_value < 0 \<or> raw_value > 100 then None else Some (real_of_int raw_value))"

text \<open>
  \<^verbatim>\<open>normalizeTemperatureC(long long raw_value)\<close>: the reading is converted to a double,
  divided by 1000 when its magnitude exceeds 1000, and rejected outside 0..150.
\<close>

definition normalizeTemperatureC :: "int \<Rightarrow> real option" where
  "normalizeTemperatureC raw_value =
     (let celsius = real_of_int raw_value;
          celsius = (if \<bar>celsius\<bar> > 1000 then celsius / 1000 else celsius)
      in if celsius < 0 \<or> celsius > 150 then None else Some celsius)"

section \<open>types.hpp and sensors\_fallback.hpp\<close>

record CpuMetrics =
  name :: string
  total_cores :: "int option"
  total_threads :: "int option"
  temperature_c :: "real option"
  frequency_mhz :: "real option"
  usage_percent :: "real option"

record RamMetrics =
  total_kb :: "int option"
  available_kb :: "int option"

text \<open>The byte counts are \<^verbatim>\<open>unsigned long long\<close>; nothing is added to them, so \<^typ>\<open>nat\<close>.\<close>

record DiskMetrics =
  mount_point :: string
  total_bytes :: "nat option"
  free_bytes :: "nat option"

record GpuMetrics =
  name :: string
  source :: string
  in_use :: "bool option"
  temperature_c :: "real option"
  core_clock_mhz :: "real option"
  utilization_percent :: "real option"
  power_w :: "real option"
  memory_used_mib :: "real option"
  memory_total_mib :: "real option"
  memory_utilization_percent :: "real option"

record Snapshot =
  cpu :: CpuMetrics
  ram :: RamMetrics
  disk :: DiskMetrics
  gpus :: "GpuMetrics list"

record SensorsFallbackMetrics =
  cpu_fan_rpm :: "real option"
  cpu_power_w :: "real option"
  gpu_fan_rpm :: "real option"
  gpu_power_w :: "real option"

text \<open>A default-constructed \<^verbatim>\<open>GpuMetrics\<close>: empty strings, every optional empty.\<close>

definition GpuMetrics_default :: GpuMetrics where
  "GpuMetrics_default =
     \<lparr>name = [], source = [], in_use = None, temperature_c = None, core_clock_mhz = None,
      utilization_percent = None, power_w = None, memory_used_mib = None,
      memory_total_mib = None, memory_utilization_percent = None\<rparr>"

section \<open>src/metrics/gpu.cpp\<close>

text \<open>
  What the sysfs probe reads for one entry of \<^verbatim>\<open>/sys/class/drm\<close>. A sensor directory
  under \<^verbatim>\<open>device/hwmon\<close> is given by the result of \<^verbatim>\<open>readHwmonPowerWatts\<close> on it and
  by its files in listing order, each with the result of \<^verbatim>\<open>readLongLong\<close>.
\<close>

record SensorDir =
  is_directory :: bool
  hwmon_power_watts :: "real option"
  sensor_files :: "(string \<times> int option) list"

record SysfsCard =
  card_name :: string
  device_exists :: bool
  class_code :: "string option"
  vendor_id :: "string option"
  driver_name :: "string option"
  card_in_use :: "bool option"
  hwmon :: "SensorDir list"
  gt_cur_freq_mhz :: "int option"
  amd_clock_mhz :: "real option"
  gpu_busy_percent :: "int option"
  vram_used_bytes :: "int option"
  vram_total_bytes :: "int option"

text \<open>
  One row of the query tool's CSV with at least seven fields: the name and the results of
  \<^verbatim>\<open>parseOptionalDouble\<close> on the six numeric fields.
\<close>

record NvidiaRow =
  row_name :: string
  row_temperature :: "real option"
  row_clock :: "real option"
  row_utilization :: "real option"
  row_power :: "real option"
  row_memory_used :: "real option"
  row_memory_total :: "real option"

definition vendorNameFromId :: "string option \<Rightarrow> string" where
  "vendorNameFromId vendor =
     (case vendor of
        None \<Rightarrow> ''Unknown''
      | Some v \<Rightarrow>
          (let lower = toLower v
           in if lower = ''0x10de'' then ''NVIDIA''
              else if lower = ''0x1002'' then ''AMD''
              else if lower = ''0x8086'' then ''Intel''
              else ''Vendor '' @ v))"

definition isDisplayClassDevice :: "SysfsCard \<Rightarrow> bool" where
  "isDisplayClassDevice dev =
     (case class_code dev of None \<Rightarrow> True | Some c \<Rightarrow> startsWith (toLower c) ''0x03'')"

definition telemetryScore :: "GpuMetrics \<Rightarrow> int" where
  "telemetryScore gpu =
     (if temperature_c gpu \<noteq> None then 2 else 0)
     + (if core_clock_mhz gpu \<noteq> None then 2 else 0)
     + (if utilization_percent gpu \<noteq> None then 3 else 0)
     + (if power_w gpu \<noteq> None then 2 else 0)
     + (if memory_used_mib gpu \<noteq> None \<or> memory_total_mib gpu \<noteq> None then 2 else 0)
     + (if memory_utilization_percent gpu \<noteq> None then 1 else 0)"

definition gpuLooksNvidia :: "GpuMetrics \<Rightarrow> bool" where
  "gpuLooksNvidia gpu =
     (find_not_npos (toLower (name gpu)) ''nvidia'' \<or> find_not_npos (toLower (source gpu)) ''nvidia'')"

definition deriveMemoryUtilization :: "GpuMetrics \<Rightarrow> GpuMetrics" where
  "deriveMemoryUtilization gpu =
     (case (memory_used_mib gpu, memory_total_mib gpu) of
        (Some used_v, Some total_v) \<Rightarrow>
          if total_v > 0 then gpu\<lparr>memory_utilization_percent := Some (100 * used_v / total_v)\<rparr> else gpu
      | _ \<Rightarrow> gpu)"

definition gpuFromNvidiaRow :: "NvidiaRow \<Rightarrow> GpuMetrics" where
  "gpuFromNvidiaRow row =
     deriveMemoryUtilization
       (GpuMetrics_default
          \<lparr>name := row_name row, source := ''nvidia-smi'', temperature_c := row_temperature row,
           core_clock_mhz := row_clock row, utilization_percent := row_utilization row,
           power_w := row_power row, memory_used_mib := row_memory_used row,
           memory_total_mib := row_memory_total row\<rparr>)"

definition collectGpusFromNvidiaSmi :: "NvidiaRow list \<Rightarrow> GpuMetrics list" where
  "collectGpusFromNvidiaSmi rows = map gpuFromNvidiaRow rows"

text \<open>The two nested loops over \<^verbatim>\<open>device/hwmon\<close>.\<close>

definition hwmonFileStep :: "GpuMetrics \<Rightarrow> string \<times> int option \<Rightarrow> GpuMetrics" where
  "hwmonFileStep gpu file =
     (if temperature_c gpu = None \<and> startsWith (fst file) ''temp'' \<and> endsWith (fst file) ''_input''
      then (case snd file of
              Some milli_c \<Rightarrow> gpu\<lparr>temperature_c := Some (real_of_int milli_c / 1000)\<rparr>
            | None \<Rightarrow> gpu)
      else gpu)"

definition hwmonSensorStep :: "GpuMetrics \<Rightarrow> SensorDir \<Rightarrow> GpuMetrics" where
  "hwmonSensorStep gpu sensor =
     (if \<not> is_directory sensor then gpu
      else foldl hwmonFileStep
             (if power_w gpu = None then gpu\<lparr>power_w := hwmon_power_watts sensor\<rparr> else gpu)
             (sensor_files sensor))"

definition readCardClock :: "SysfsCard \<Rightarrow> real option" where
  "readCardClock dev =
     (case gt_cur_freq_mhz dev of
        Some mhz \<Rightarrow> if mhz > 0 then Some (real_of_int mhz) else amd_clock_mhz dev
      | None \<Rightarrow> amd_clock_mhz dev)"

definition readCardVram :: "SysfsCard \<Rightarrow> GpuMetrics \<Rightarrow> GpuMetrics" where
  "readCardVram dev gpu =
     (case (vram_used_bytes dev, vram_total_bytes dev) of
        (Some used_v, Some total_v) \<Rightarrow>
          if total_v > 0
          then deriveMemoryUtilization
                 (gpu\<lparr>memory_used_mib := Some (real_of_int used_v / (1024 * 1024)),
                      memory_total_mib := Some (real_of_int total_v / (1024 * 1024))\<rparr>)
          else gpu
      | _ \<Rightarrow> gpu)"

text \<open>
  The telemetry read from the card directory, shared by the two copies of the probe: hwmon
  temperature and power, clock, busy percent, VRAM, then the sensors-text power fallback.
\<close>

definition readCardTelemetry :: "SensorsFallbackMetrics \<Rightarrow> SysfsCard \<Rightarrow> GpuMetrics \<Rightarrow> GpuMetrics" where
  "readCardTelemetry fallback dev gpu0 =
     (let gpu = foldl hwmonSensorStep gpu0 (hwmon dev);
          gpu = gpu\<lparr>core_clock_mhz := readCardClock dev\<rparr>;
          gpu = (case gpu_busy_percent dev of
                   Some raw_util \<Rightarrow> gpu\<lparr>utilization_percent := normalizePercent raw_util\<rparr>
                 | None \<Rightarrow> gpu);
          gpu = readCardVram dev gpu
      in if power_w gpu = None then gpu\<lparr>power_w := gpu_power_w fallback\<rparr> else gpu)"

definition cardNameAccepted :: "string \<Rightarrow> bool" where
  "cardNameAccepted card_name_v = (startsWith card_name_v ''card'' \<and> CHR ''-'' \<notin> set card_name_v)"

definition sysfsGpu :: "SensorsFallbackMetrics \<Rightarrow> SysfsCard \<Rightarrow> GpuMetrics" where
  "sysfsGpu fallback dev =
     readCardTelemetry fallback dev
       (GpuMetrics_default
          \<lparr>source := (case driver_name dev of Some d \<Rightarrow> ''sysfs/'' @ d | None \<Rightarrow> ''sysfs''),
           name := card_name dev @ '' ('' @ vendorNameFromId (vendor_id dev) @ '')'',
           in_use := card_in_use dev\<rparr>)"

text \<open>
  The comparator of both \<^verbatim>\<open>std::stable_sort\<close> calls: higher telemetry score first, then
  the smaller name.
\<close>

definition gpuRankedBefore :: "GpuMetrics \<Rightarrow> GpuMetrics \<Rightarrow> bool" where
  "gpuRankedBefore lhs rhs =
     (let lhs_score = telemetryScore lhs; rhs_score = telemetryScore rhs
      in if lhs_score \<noteq> rhs_score then lhs_score > rhs_score else name lhs < name rhs)"

text \<open>
  \<^verbatim>\<open>std::stable_sort\<close> is the library's. It is embedded as insertion sort from the right:
  an element is placed before the first element that does not have to precede it, so
  equivalent elements keep their order.
\<close>

fun stable_insert :: "('a \<Rightarrow> 'a \<Rightarrow> bool) \<Rightarrow> 'a \<Rightarrow> 'a list \<Rightarrow> 'a list" where
  "stable_insert before x [] = [x]"
| "stable_insert before x (y # ys) =
     (if before y x then y # stable_insert before x ys else x # y # ys)"

definition stable_sort :: "('a \<Rightarrow> 'a \<Rightarrow> bool) \<Rightarrow> 'a list \<Rightarrow> 'a list" where
  "stable_sort before xs = foldr (stable_insert before) xs []"

definition collectGpusFromSysfs :: "SensorsFallbackMetrics \<Rightarrow> SysfsCard list \<Rightarrow> GpuMetrics list" where
  "collectGpusFromSysfs fallback drm_entries =
     stable_sort gpuRankedBefore
       (map (sysfsGpu fallback)
          (filter (\<lambda>dev. cardNameAccepted (card_name dev) \<and> device_exists dev
                           \<and> isDisplayClassDevice dev) drm_entries))"

text \<open>The field-wise merge in the body of the fusion loop: a field the base lacks is taken
  from the supplement.\<close>

definition supplementFields :: "GpuMetrics \<Rightarrow> GpuMetrics \<Rightarrow> GpuMetrics" where
  "supplementFields base extra =
     (let base = (if temperature_c base = None then base\<lparr>temperature_c := temperature_c extra\<rparr> else base);
          base = (if core_clock_mhz base = None then base\<lparr>core_clock_mhz := core_clock_mhz extra\<rparr> else base);
          base = (if utilization_percent base = None
                  then base\<lparr>utilization_percent := utilization_percent extra\<rparr> else base);
          base = (if power_w base = None then base\<lparr>power_w := power_w extra\<rparr> else base);
          base = (if memory_used_mib base = None
                  then base\<lparr>memory_used_mib := memory_used_mib extra\<rparr> else base);
          base = (if memory_total_mib base = None
                  then base\<lparr>memory_total_mib := memory_total_mib extra\<rparr> else base)
      in if memory_utilization_percent base = None
         then base\<lparr>memory_utilization_percent := memory_utilization_percent extra\<rparr> else base)"

definition supplementGpu :: "GpuMetrics \<Rightarrow> GpuMetrics \<Rightarrow> GpuMetrics" where
  "supplementGpu base extra =
     (let base = supplementFields base extra
      in if in_use base = None \<and> in_use extra \<noteq> None then base\<lparr>in_use := in_use extra\<rparr> else base)"

text \<open>
  The state of the fusion loop of \<^verbatim>\<open>collectGpus\<close>: the \<^verbatim>\<open>sysfs_used\<close> flags and the two
  cursors \<^verbatim>\<open>next_nvidia_index\<close> and \<^verbatim>\<open>next_any_index\<close>.
\<close>

record FusionState =
  sysfs_used :: "bool list"
  next_nvidia_index :: nat
  next_any_index :: nat

text \<open>
  The first inner \<^verbatim>\<open>while\<close>: advance through \<^verbatim>\<open>nvidia_sysfs_indices\<close> to the first index
  not yet used. The result is the index taken, if any, and the new state.
\<close>

function takeNvidiaSupplement :: "nat list \<Rightarrow> FusionState \<Rightarrow> nat option \<times> FusionState" where
  "takeNvidiaSupplement nvidia_sysfs_indices st =
     (if next_nvidia_index st < length nvidia_sysfs_indices
      then (let idx = nvidia_sysfs_indices ! next_nvidia_index st;
                st = st\<lparr>next_nvidia_index := next_nvidia_index st + 1\<rparr>
            in if \<not> sysfs_used st ! idx
               then (Some idx, st\<lparr>sysfs_used := (sysfs_used st)[idx := True]\<rparr>)
               else takeNvidiaSupplement nvidia_sysfs_indices st)
      else (None, st))"
  by pat_completeness auto
termination
  by (relation "measure (\<lambda>(ixs, st). length ixs - next_nvidia_index st)") auto

text \<open>The second inner \<^verbatim>\<open>while\<close>: any unused sysfs entry, in encounter order.\<close>

function takeAnySupplement :: "nat \<Rightarrow> FusionState \<Rightarrow> nat option \<times> FusionState" where
  "takeAnySupplement sysfs_size st =
     (if next_any_index st < sysfs_size
      then (let idx = next_any_index st;
                st = st\<lparr>next_any_index := next_any_index st + 1\<rparr>
            in if \<not> sysfs_used st ! idx
               then (Some idx, st\<lparr>sysfs_used := (sysfs_used st)[idx := True]\<rparr>)
               else takeAnySupplement sysfs_size st)
      else (None, st))"
  by pat_completeness auto
termination
  by (relation "measure (\<lambda>(n, st). n - next_any_index st)") auto

definition takeSupplement :: "nat list \<Rightarrow> nat \<Rightarrow> FusionState \<Rightarrow> nat option \<times> FusionState" where
  "takeSupplement nvidia_sysfs_indices sysfs_size st =
     (case takeNvidiaSupplement nvidia_sysfs_indices st of
        (Some idx, st') \<Rightarrow> (Some idx, st')
      | (None, st') \<Rightarrow> takeAnySupplement sysfs_size st')"

text \<open>
  The loop over the tool's records. Beside the merged records and the final state it
  returns, for each record in turn, the index of the sysfs entry that supplemented it.
\<close>

fun fuseNvidia ::
  "GpuMetrics list \<Rightarrow> nat list \<Rightarrow> FusionState \<Rightarrow> GpuMetrics list
     \<Rightarrow> GpuMetrics list \<times> nat option list \<times> FusionState" where
  "fuseNvidia sysfs ixs st [] = ([], [], st)"
| "fuseNvidia sysfs ixs st (base # rest) =
     (case takeSupplement ixs (length sysfs) st of
        (extra, st') \<Rightarrow>
          (case fuseNvidia sysfs ixs st' rest of
             (merged, picks, st'') \<Rightarrow>
               ((case extra of None \<Rightarrow> base | Some idx \<Rightarrow> supplementGpu base (sysfs ! idx)) # merged,
                extra # picks, st'')))"

definition applyPowerFallback :: "SensorsFallbackMetrics \<Rightarrow> GpuMetrics \<Rightarrow> GpuMetrics" where
  "applyPowerFallback fallback gpu =
     (let gpu = (if power_w gpu = None then gpu\<lparr>power_w := gpu_power_w fallback\<rparr> else gpu)
      in if memory_utilization_percent gpu = None then deriveMemoryUtilization gpu else gpu)"

definition nvidiaSysfsIndices :: "GpuMetrics list \<Rightarrow> nat list" where
  "nvidiaSysfsIndices sysfs = filter (\<lambda>i. gpuLooksNvidia (sysfs ! i)) [0..<length sysfs]"

definition initialFusionState :: "GpuMetrics list \<Rightarrow> FusionState" where
  "initialFusionState sysfs =
     \<lparr>sysfs_used = replicate (length sysfs) False, next_nvidia_index = 0, next_any_index = 0\<rparr>"

definition fusionAssignment ::
  "GpuMetrics list \<Rightarrow> GpuMetrics list \<Rightarrow> GpuMetrics list \<times> nat option list \<times> FusionState" where
  "fusionAssignment nvidia sysfs =
     fuseNvidia sysfs (nvidiaSysfsIndices sysfs) (initialFusionState sysfs) nvidia"

definition unusedSysfs :: "GpuMetrics list \<Rightarrow> bool list \<Rightarrow> GpuMetrics list" where
  "unusedSysfs sysfs used_v = map (\<lambda>i. sysfs ! i) (filter (\<lambda>i. \<not> used_v ! i) [0..<length sysfs])"

text \<open>
  \<^verbatim>\<open>collectGpus\<close> after the two probes have run: \<open>nvidia\<close> is the result of
  \<^verbatim>\<open>collectGpusFromNvidiaSmi\<close> and \<open>sysfs\<close> that of \<^verbatim>\<open>collectGpusFromSysfs\<close>.
\<close>

definition fuseGpus :: "SensorsFallbackMetrics \<Rightarrow> GpuMetrics list \<Rightarrow> GpuMetrics list \<Rightarrow> GpuMetrics list" where
  "fuseGpus fallback nvidia sysfs =
     (if nvidia \<noteq> []
      then (case fusionAssignment nvidia sysfs of
              (merged, picks, st) \<Rightarrow>
                stable_sort gpuRankedBefore
                  (map (applyPowerFallback fallback) merged @ unusedSysfs sysfs (sysfs_used st)))
      else sysfs)"

definition collectGpus :: "SensorsFallbackMetrics \<Rightarrow> NvidiaRow list \<Rightarrow> SysfsCard list \<Rightarrow> GpuMetrics list" where
  "collectGpus fallback rows drm_entries =
     fuseGpus fallback (collectGpusFromNvidiaSmi rows) (collectGpusFromSysfs fallback drm_entries)"

section \<open>The second copy of gpu.cpp\<close>

text \<open>
  The repository holds a second definition of the GPU module, without telemetry ranking,
  driver names or in-use detection. Its functions carry the suffix \<open>_v2\<close> here. Its sysfs
  probe accepts every \<^verbatim>\<open>card*\<close> entry with a device directory and keeps a record only if
  a telemetry field is set; its fusion pairs the tool's records with the supplements
  position by position.
\<close>

definition hasProbeTelemetry :: "GpuMetrics \<Rightarrow> bool" where
  "hasProbeTelemetry gpu =
     (temperature_c gpu \<noteq> None \<or> core_clock_mhz gpu \<noteq> None \<or> utilization_percent gpu \<noteq> None
      \<or> power_w gpu \<noteq> None \<or> memory_used_mib gpu \<noteq> None \<or> memory_total_mib gpu \<noteq> None)"

definition sysfsGpu_v2 :: "SensorsFallbackMetrics \<Rightarrow> SysfsCard \<Rightarrow> GpuMetrics" where
  "sysfsGpu_v2 fallback dev =
     readCardTelemetry fallback dev
       (GpuMetrics_default
          \<lparr>source := ''sysfs'',
           name := card_name dev @ '' ('' @ vendorNameFromId (vendor_id dev) @ '')''\<rparr>)"

definition collectGpusFromSysfs_v2 :: "SensorsFallbackMetrics \<Rightarrow> SysfsCard list \<Rightarrow> GpuMetrics list" where
  "collectGpusFromSysfs_v2 fallback drm_entries =
     filter hasProbeTelemetry
       (map (sysfsGpu_v2 fallback)
          (filter (\<lambda>dev. cardNameAccepted (card_name dev) \<and> device_exists dev) drm_entries))"

definition supplements_v2 :: "GpuMetrics list \<Rightarrow> nat list" where
  "supplements_v2 sysfs =
     (let named = filter (\<lambda>i. find_not_npos (toLower (name (sysfs ! i))) ''nvidia'') [0..<length sysfs]
      in if named = [] then [0..<length sysfs] else named)"

definition fuseGpus_v2 :: "SensorsFallbackMetrics \<Rightarrow> GpuMetrics list \<Rightarrow> GpuMetrics list \<Rightarrow> GpuMetrics list" where
  "fuseGpus_v2 fallback nvidia sysfs =
     (if nvidia \<noteq> []
      then (let supplements = supplements_v2 sysfs;
                merge_limit = min (length nvidia) (length supplements);
                merged = map (\<lambda>i. if i < merge_limit
                                   then supplementFields (nvidia ! i) (sysfs ! (supplements ! i))
                                   else nvidia ! i) [0..<length nvidia]
            in map (applyPowerFallback fallback) merged)
      else sysfs)"

definition collectGpus_v2 :: "SensorsFallbackMetrics \<Rightarrow> NvidiaRow list \<Rightarrow> SysfsCard list \<Rightarrow> GpuMetrics list" where
  "collectGpus_v2 fallback rows drm_entries =
     fuseGpus_v2 fallback (collectGpusFromNvidiaSmi rows) (collectGpusFromSysfs_v2 fallback drm_entries)"

section \<open>cpu.cpp: the usage sampler\<close>

text \<open>
  The first line of \<^verbatim>\<open>/proc/stat\<close> after the stream extraction: the tag and the eight
  counters. \<open>None\<close> for the whole read stands for a file that could not be opened.
\<close>

record ProcStat =
  cpu_tag :: string
  user :: "64 word"
  nice :: "64 word"
  system :: "64 word"
  idle :: "64 word"
  iowait :: "64 word"
  irq :: "64 word"
  softirq :: "64 word"
  steal :: "64 word"

text \<open>The function-local \<^verbatim>\<open>static CpuUsageState state\<close>.\<close>

record CpuUsageState =
  prev_idle :: "64 word"
  prev_total :: "64 word"
  initialized :: bool

definition CpuUsageState_default :: CpuUsageState where
  "CpuUsageState_default = \<lparr>prev_idle = 0, prev_total = 0, initialized = False\<rparr>"

definition idle_ticks :: "ProcStat \<Rightarrow> 64 word" where
  "idle_ticks st = idle st + iowait st"

definition total_ticks :: "ProcStat \<Rightarrow> 64 word" where
  "total_ticks st =
     user st + nice st + system st + idle st + iowait st + irq st + softirq st + steal st"

definition collectCpuUsagePercent ::
  "CpuUsageState \<Rightarrow> ProcStat option \<Rightarrow> real option \<times> CpuUsageState" where
  "collectCpuUsagePercent state stat =
     (case stat of
        None \<Rightarrow> (None, state)
      | Some st \<Rightarrow>
          if cpu_tag st \<noteq> ''cpu'' then (None, state)
          else if \<not> initialized state \<or> total_ticks st < prev_total state
                  \<or> idle_ticks st < prev_idle state
          then (None, state\<lparr>prev_idle := idle_ticks st, prev_total := total_ticks st,
                              initialized := True\<rparr>)
          else (let total_delta = total_ticks st - prev_total state;
                    idle_delta = idle_ticks st - prev_idle state;
                    state = state\<lparr>prev_idle := idle_ticks st, prev_total := total_ticks st\<rparr>
                in if total_delta = 0 then (None, state)
                   else (let usage = 100 * (1 - real (unat idle_delta) / real (unat total_delta))
                         in (Some (max 0 (min 100 usage)), state))))"

text \<open>
  \<^verbatim>\<open>collectCpuMetrics\<close>. The other probes of the file are arguments: \<open>probed\<close> holds the
  results of \<^verbatim>\<open>collectName\<close>, \<^verbatim>\<open>collectCoreCount\<close>, \<^verbatim>\<open>collectThreadCount\<close>,
  \<^verbatim>\<open>collectCpuTemperature\<close> and \<^verbatim>\<open>collectCpuFrequency\<close>.
\<close>

definition collectCpuMetrics ::
  "CpuUsageState \<Rightarrow> CpuMetrics \<Rightarrow> ProcStat option \<Rightarrow> CpuMetrics \<times> CpuUsageState" where
  "collectCpuMetrics state probed stat =
     (let metrics = (case (total_cores probed, total_threads probed) of
                       (Some cores, Some threads) \<Rightarrow>
                         if cores > threads then probed\<lparr>total_cores := total_threads probed\<rparr>
                         else probed
                     | _ \<Rightarrow> probed)
      in case collectCpuUsagePercent state stat of
           (usage, state') \<Rightarrow> (metrics\<lparr>usage_percent := usage\<rparr>, state'))"

section \<open>main.cpp: display GPU selection\<close>

definition gpuHasTelemetry :: "GpuMetrics \<Rightarrow> bool" where
  "gpuHasTelemetry gpu =
     (temperature_c gpu \<noteq> None \<or> core_clock_mhz gpu \<noteq> None \<or> utilization_percent gpu \<noteq> None
      \<or> power_w gpu \<noteq> None \<or> memory_used_mib gpu \<noteq> None \<or> memory_total_mib gpu \<noteq> None
      \<or> memory_utilization_percent gpu \<noteq> None)"

definition gpuLooksIntel :: "GpuMetrics \<Rightarrow> bool" where
  "gpuLooksIntel gpu =
     (let lower_name = toLower (name gpu); lower_source = toLower (source gpu)
      in find_not_npos lower_name ''intel'' \<or> find_not_npos lower_source ''intel''
         \<or> find_not_npos lower_source ''i915'' \<or> find_not_npos lower_source ''xe'')"

definition gpuLooksRadeon :: "GpuMetrics \<Rightarrow> bool" where
  "gpuLooksRadeon gpu =
     (let lower_name = toLower (name gpu); lower_source = toLower (source gpu)
      in find_not_npos lower_source ''radeon'' \<or> find_not_npos lower_name ''radeon'')"

text \<open>
  The scan of \<^verbatim>\<open>pickDisplayGpuIndex\<close>. Its three cursors start at \<^verbatim>\<open>gpus.size()\<close>, the
  value that stands for "not found".
\<close>

record DisplayScan =
  first_with_telemetry :: nat
  intel_with_telemetry :: nat
  first_intel :: nat

definition displayScanStep :: "GpuMetrics list \<Rightarrow> DisplayScan \<Rightarrow> nat \<Rightarrow> DisplayScan" where
  "displayScanStep gpus_v sc i =
     (let is_intel = gpuLooksIntel (gpus_v ! i);
          sc = (if is_intel \<and> first_intel sc = length gpus_v then sc\<lparr>first_intel := i\<rparr> else sc)
      in if gpuHasTelemetry (gpus_v ! i)
         then (let sc = (if first_with_telemetry sc = length gpus_v
                         then sc\<lparr>first_with_telemetry := i\<rparr> else sc)
               in if is_intel \<and> intel_with_telemetry sc = length gpus_v
                  then sc\<lparr>intel_with_telemetry := i\<rparr> else sc)
         else sc)"

definition displayScan :: "GpuMetrics list \<Rightarrow> DisplayScan" where
  "displayScan gpus_v =
     foldl (displayScanStep gpus_v)
       \<lparr>first_with_telemetry = length gpus_v, intel_with_telemetry = length gpus_v,
        first_intel = length gpus_v\<rparr>
       [0..<length gpus_v]"

definition pickDisplayGpuIndex :: "GpuMetrics list \<Rightarrow> nat" where
  "pickDisplayGpuIndex gpus_v =
     (if gpus_v = [] then 0
      else (let sc = displayScan gpus_v;
                n = length gpus_v;
                fallthrough = (if first_with_telemetry sc \<noteq> n then first_with_telemetry sc else 0)
            in if gpuLooksRadeon (hd gpus_v) \<and> \<not> gpuHasTelemetry (hd gpus_v)
               then (if intel_with_telemetry sc \<noteq> n then intel_with_telemetry sc
                     else if first_with_telemetry sc \<noteq> n then first_with_telemetry sc
                     else if first_intel sc \<noteq> n then first_intel sc
                     else fallthrough)
               else fallthrough))"

definition pickInUseGpuIndex :: "GpuMetrics list \<Rightarrow> nat option" where
  "pickInUseGpuIndex gpus_v =
     (case filter (\<lambda>i. in_use (gpus_v ! i) = Some True) [0..<length gpus_v] of
        i # _ \<Rightarrow> Some i
      | [] \<Rightarrow> if gpus_v = [] then None else Some (pickDisplayGpuIndex gpus_v))"

section \<open>main.cpp: the history store\<close>

record MetricsHistory =
  cpu_usage :: "real list"
  cpu_temp :: "real list"
  ram_usage :: "real list"
  gpu_usage :: "real list"
  gpu_vram_usage :: "real list"
  disk_usage :: "real list"

definition MetricsHistory_default :: MetricsHistory where
  "MetricsHistory_default =
     \<lparr>cpu_usage = [], cpu_temp = [], ram_usage = [], gpu_usage = [], gpu_vram_usage = [],
      disk_usage = []\<rparr>"

definition clampPercent :: "real \<Rightarrow> real" where
  "clampPercent v = max 0 (min 100 v)"

definition computeRamUsagePercent :: "Snapshot \<Rightarrow> real option" where
  "computeRamUsagePercent snapshot =
     (case (total_kb (ram snapshot), available_kb (ram snapshot)) of
        (Some total_v, Some avail) \<Rightarrow>
          if total_v \<le> 0 then None
          else (let available = max 0 avail; used_kb = max 0 (total_v - available)
                in Some (100 * real_of_int used_kb / real_of_int total_v))
      | _ \<Rightarrow> None)"

text \<open>
  \<^verbatim>\<open>operator[]\<close> of a vector does not check its index. An access past the end is the
  fault \<open>OutOfBounds\<close> in the model, and the callers pass it on.
\<close>

datatype fault = OutOfBounds

definition element_at :: "'a list \<Rightarrow> nat \<Rightarrow> fault + 'a" where
  "element_at xs i = (if i < length xs then Inr (xs ! i) else Inl OutOfBounds)"

definition computeGpuUsagePercent :: "Snapshot \<Rightarrow> fault + real option" where
  "computeGpuUsagePercent snapshot =
     (if gpus snapshot = [] then Inr None
      else (case element_at (gpus snapshot) (pickDisplayGpuIndex (gpus snapshot)) of
              Inl e \<Rightarrow> Inl e
            | Inr gpu \<Rightarrow> Inr (utilization_percent gpu)))"

definition computeGpuVramUsagePercent :: "Snapshot \<Rightarrow> fault + real option" where
  "computeGpuVramUsagePercent snapshot =
     (if gpus snapshot = [] then Inr None
      else (case element_at (gpus snapshot) (pickDisplayGpuIndex (gpus snapshot)) of
              Inl e \<Rightarrow> Inl e
            | Inr gpu \<Rightarrow>
                if memory_utilization_percent gpu \<noteq> None then Inr (memory_utilization_percent gpu)
                else (case (memory_used_mib gpu, memory_total_mib gpu) of
                        (Some used_v, Some total_v) \<Rightarrow>
                          if total_v > 0 then Inr (Some (100 * used_v / total_v)) else Inr None
                      | _ \<Rightarrow> Inr None)))"

definition computeDiskUsagePercent :: "Snapshot \<Rightarrow> real option" where
  "computeDiskUsagePercent snapshot =
     (case (total_bytes (disk snapshot), free_bytes (disk snapshot)) of
        (Some total_v, Some free) \<Rightarrow>
          if total_v = 0 then None
          else (let used_v = total_v - min free total_v
                in Some (100 * real used_v / real total_v))
      | _ \<Rightarrow> None)"

text \<open>
  \<^verbatim>\<open>appendHistoryValue\<close>. Its callers pass the address of a member of the history, so the
  null-pointer return is not a case of the model.
\<close>

definition appendHistoryValue :: "real list \<Rightarrow> real option \<Rightarrow> nat \<Rightarrow> real list" where
  "appendHistoryValue series v max_points =
     (let next_value = clampPercent
                         (case v of Some x \<Rightarrow> x | None \<Rightarrow> if series = [] then 0 else last series);
          series = series @ [next_value]
      in if length series > max_points
         then drop (length series - max_points) series
         else series)"

definition updateHistory ::
  "MetricsHistory \<Rightarrow> Snapshot \<Rightarrow> nat \<Rightarrow> real option \<Rightarrow> fault + MetricsHistory" where
  "updateHistory history snapshot max_points disk_override_percent =
     (if max_points = 0 then Inr history
      else (case computeGpuUsagePercent snapshot of
              Inl e \<Rightarrow> Inl e
            | Inr gpu_percent \<Rightarrow>
                (case computeGpuVramUsagePercent snapshot of
                   Inl e \<Rightarrow> Inl e
                 | Inr vram_percent \<Rightarrow>
                     Inr (history
                       \<lparr>cpu_usage := appendHistoryValue (cpu_usage history)
                                        (usage_percent (cpu snapshot)) max_points,
                        cpu_temp := appendHistoryValue (cpu_temp history)
                                        (CpuMetrics.temperature_c (cpu snapshot)) max_points,
                        ram_usage := appendHistoryValue (ram_usage history)
                                        (computeRamUsagePercent snapshot) max_points,
                        gpu_usage := appendHistoryValue (gpu_usage history) gpu_percent max_points,
                        gpu_vram_usage := appendHistoryValue (gpu_vram_usage history)
                                        vram_percent max_points,
                        disk_usage := appendHistoryValue (disk_usage history)
                                        (if disk_override_percent \<noteq> None then disk_override_percent
                                         else computeDiskUsagePercent snapshot) max_points\<rparr>))))"

section \<open>main.cpp: the poll loop\<close>

text \<open>
  Everything one poll reads from the system: the CPU probes, the first line of
  \<^verbatim>\<open>/proc/stat\<close>, memory and disk totals, the sensors-text fallback, the rows of the GPU
  query tool, the listing of \<^verbatim>\<open>/sys/class/drm\<close> and the result of
  \<^verbatim>\<open>computeRootDiskBusyPercent\<close>.
\<close>

record ProbeReadings =
  probed_cpu :: CpuMetrics
  proc_stat :: "ProcStat option"
  probed_ram :: RamMetrics
  probed_disk :: DiskMetrics
  sensors_fallback :: SensorsFallbackMetrics
  nvidia_rows :: "NvidiaRow list"
  drm_entries :: "SysfsCard list"
  disk_busy_percent :: "real option"

definition collectSnapshot :: "CpuUsageState \<Rightarrow> ProbeReadings \<Rightarrow> Snapshot \<times> CpuUsageState" where
  "collectSnapshot state r =
     (case collectCpuMetrics state (probed_cpu r) (proc_stat r) of
        (metrics, state') \<Rightarrow>
          (\<lparr>cpu = metrics, ram = probed_ram r, disk = probed_disk r,
            gpus = collectGpus (sensors_fallback r) (nvidia_rows r) (drm_entries r)\<rparr>, state'))"

definition kHistoryPoints :: nat where
  "kHistoryPoints = 2048"

text \<open>One poll of \<^verbatim>\<open>main\<close>: \<^verbatim>\<open>collectSnapshot\<close>, then \<^verbatim>\<open>updateHistory\<close>.\<close>

definition pollOnce ::
  "CpuUsageState \<times> MetricsHistory \<Rightarrow> ProbeReadings \<Rightarrow> fault + CpuUsageState \<times> MetricsHistory" where
  "pollOnce sh r =
     (case collectSnapshot (fst sh) r of
        (snapshot, state') \<Rightarrow>
          (case updateHistory (snd sh) snapshot kHistoryPoints (disk_busy_percent r) of
             Inl e \<Rightarrow> Inl e
           | Inr history' \<Rightarrow> Inr (state', history')))"

fun runPolls ::
  "CpuUsageState \<times> MetricsHistory \<Rightarrow> ProbeReadings list \<Rightarrow> fault + CpuUsageState \<times> MetricsHistory" where
  "runPolls sh [] = Inr sh"
| "runPolls sh (r # rs) = (case pollOnce sh r of Inl e \<Rightarrow> Inl e | Inr sh' \<Rightarrow> runPolls sh' rs)"

text \<open>The program starts with the sampler uninitialised and an empty history.\<close>

definition mainPolls :: "ProbeReadings list \<Rightarrow> fault + CpuUsageState \<times> MetricsHistory" where
  "mainPolls rs = runPolls (CpuUsageState_default, MetricsHistory_default) rs"

section \<open>main.cpp: the canvas\<close>

text \<open>
  Coordinates and sizes are C \<^verbatim>\<open>int\<close>; the model uses \<^typ>\<open>int\<close> without a width, which
  agrees with the code as long as \<^verbatim>\<open>width * height\<close> fits. An index into \<^verbatim>\<open>cells\<close> is
  computed only for a position inside the canvas; the model reads and writes it with
  \<open>!\<close> and list update, which is the code's behaviour when \<^verbatim>\<open>cells\<close> holds
  \<^verbatim>\<open>width * height\<close> masks, as \<^verbatim>\<open>createBrailleCanvas\<close> makes it.
\<close>

record BrailleCanvas =
  width :: int
  height :: int
  cells :: "16 word list"

definition kDirUp :: "16 word" where "kDirUp = 0x01"
definition kDirDown :: "16 word" where "kDirDown = 0x02"
definition kDirLeft :: "16 word" where "kDirLeft = 0x04"
definition kDirRight :: "16 word" where "kDirRight = 0x08"
definition kDirPoint :: "16 word" where "kDirPoint = 0x10"

definition isInsideCanvas :: "BrailleCanvas \<Rightarrow> int \<Rightarrow> int \<Rightarrow> bool" where
  "isInsideCanvas canvas x y = (x \<ge> 0 \<and> y \<ge> 0 \<and> x < width canvas \<and> y < height canvas)"

definition addCanvasMask :: "BrailleCanvas \<Rightarrow> int \<Rightarrow> int \<Rightarrow> 16 word \<Rightarrow> BrailleCanvas" where
  "addCanvasMask canvas x y bits =
     (if \<not> isInsideCanvas canvas x y then canvas
      else (let index = nat (y * width canvas + x)
            in canvas\<lparr>cells := (cells canvas)[index := (cells canvas ! index) OR bits]\<rparr>))"

definition connectCanvasCells :: "BrailleCanvas \<Rightarrow> int \<Rightarrow> int \<Rightarrow> int \<Rightarrow> int \<Rightarrow> BrailleCanvas" where
  "connectCanvasCells canvas x0 y0 x1 y1 =
     (if \<not> isInsideCanvas canvas x0 y0 \<or> \<not> isInsideCanvas canvas x1 y1 then canvas
      else if x1 = x0 + 1 \<and> y1 = y0
        then addCanvasMask (addCanvasMask canvas x0 y0 kDirRight) x1 y1 kDirLeft
      else if x1 = x0 - 1 \<and> y1 = y0
        then addCanvasMask (addCanvasMask canvas x0 y0 kDirLeft) x1 y1 kDirRight
      else if x1 = x0 \<and> y1 = y0 + 1
        then addCanvasMask (addCanvasMask canvas x0 y0 kDirDown) x1 y1 kDirUp
      else if x1 = x0 \<and> y1 = y0 - 1
        then addCanvasMask (addCanvasMask canvas x0 y0 kDirUp) x1 y1 kDirDown
      else canvas)"

definition createBrailleCanvas :: "int \<Rightarrow> int \<Rightarrow> BrailleCanvas" where
  "createBrailleCanvas w h =
     \<lparr>width = max 0 w, height = max 0 h, cells = replicate (nat (max 0 w * max 0 h)) 0\<rparr>"

text \<open>
  The \<^verbatim>\<open>while (true)\<close> of \<^verbatim>\<open>rasterizeBrailleLine\<close>, on the canvas, the pen position and
  the error term. \<open>None\<close> is a loop that never reaches its \<^verbatim>\<open>break\<close>.
\<close>

partial_function (option) rasterizeLoop ::
  "int \<Rightarrow> int \<Rightarrow> int \<Rightarrow> int \<Rightarrow> int \<Rightarrow> int \<Rightarrow> BrailleCanvas \<Rightarrow> int \<Rightarrow> int \<Rightarrow> int
     \<Rightarrow> BrailleCanvas option" where
  "rasterizeLoop x1 y1 dx dy sx sy canvas x y err =
     (if x = x1 \<and> y = y1 then Some canvas
      else (let prev_x = x; prev_y = y;
                twice_error = err * 2;
                moved_x = (twice_error > - dy);
                err = (if moved_x then err - dy else err);
                x = (if moved_x then x + sx else x);
                moved_y = (twice_error < dx);
                err = (if moved_y then err + dx else err);
                y = (if moved_y then y + sy else y);
                canvas = (if moved_x \<and> moved_y
                          then connectCanvasCells
                                 (connectCanvasCells canvas prev_x prev_y x prev_y) x prev_y x y
                          else connectCanvasCells canvas prev_x prev_y x y);
                canvas = addCanvasMask canvas x y kDirPoint
            in rasterizeLoop x1 y1 dx dy sx sy canvas x y err))"

definition rasterizeBrailleLine ::
  "BrailleCanvas \<Rightarrow> int \<Rightarrow> int \<Rightarrow> int \<Rightarrow> int \<Rightarrow> BrailleCanvas option" where
  "rasterizeBrailleLine canvas x0 y0 x1 y1 =
     (if \<not> isInsideCanvas canvas x0 y0 \<or> \<not> isInsideCanvas canvas x1 y1 then Some canvas
      else (let canvas = addCanvasMask canvas x0 y0 kDirPoint;
                dx = \<bar>x1 - x0\<bar>; dy = \<bar>y1 - y0\<bar>;
                sx = (if x0 < x1 then 1 else - 1);
                sy = (if y0 < y1 then 1 else - 1)
            in rasterizeLoop x1 y1 dx dy sx sy canvas x0 y0 (dx - dy)))"

text \<open>The lambda \<^verbatim>\<open>glyphForMask\<close> of \<^verbatim>\<open>drawBrailleLayer\<close>; a glyph is its code point.\<close>

definition glyphForMask :: "16 word \<Rightarrow> nat" where
  "glyphForMask bits =
     (let dirs = bits AND (kDirUp OR kDirDown OR kDirLeft OR kDirRight)
      in if dirs = 0 then (if bits AND kDirPoint \<noteq> 0 then 0x00b7 else 0x20)
         else if dirs = (kDirLeft OR kDirRight) then 0x2500
         else if dirs = (kDirUp OR kDirDown) then 0x2502
         else if dirs = (kDirDown OR kDirRight) then 0x250c
         else if dirs = (kDirDown OR kDirLeft) then 0x2510
         else if dirs = (kDirUp OR kDirRight) then 0x2514
         else if dirs = (kDirUp OR kDirLeft) then 0x2518
         else if dirs = (kDirUp OR kDirDown OR kDirRight) then 0x251c
         else if dirs = (kDirUp OR kDirDown OR kDirLeft) then 0x2524
         else if dirs = (kDirLeft OR kDirRight OR kDirDown) then 0x252c
         else if dirs = (kDirLeft OR kDirRight OR kDirUp) then 0x2534
         else if dirs = (kDirUp OR kDirDown OR kDirLeft OR kDirRight) then 0x253c
         else if dirs AND (kDirLeft OR kDirRight) \<noteq> 0 then 0x2500
         else 0x2502)"

text \<open>
  \<^verbatim>\<open>drawBrailleLayer\<close> on a window that exists: the glyphs it writes, each with its row
  and column, in the order of the two loops. Colour attributes are left out.
\<close>

definition drawBrailleLayer :: "BrailleCanvas \<Rightarrow> int \<Rightarrow> int \<Rightarrow> (int \<times> int \<times> nat) list" where
  "drawBrailleLayer canvas top_row left_col =
     (if width canvas \<le> 0 \<or> height canvas \<le> 0 \<or> cells canvas = [] then []
      else concat (map (\<lambda>cell_y.
             concat (map (\<lambda>cell_x.
               (let bits = cells canvas ! nat (cell_y * width canvas + cell_x)
                in if bits = 0 then [] else [(top_row + cell_y, left_col + cell_x, glyphForMask bits)]))
               [0..width canvas - 1]))
             [0..height canvas - 1]))"

text \<open>
  A run of appends to one series with one capacity, and the range every stored value is
  meant to lie in.
\<close>

definition appendHistoryValues :: "real list \<Rightarrow> real option list \<Rightarrow> nat \<Rightarrow> real list" where
  "appendHistoryValues series vs max_points =
     foldl (\<lambda>s v. appendHistoryValue s v max_points) series vs"

definition percentSeries :: "real list \<Rightarrow> bool" where
  "percentSeries series = (\<forall>x\<in>set series. 0 \<le> x \<and> x \<le> 100)"

text \<open>
  What the scan maintains: each cursor is either still \<^verbatim>\<open>gpus.size()\<close> or the index of
  a record with the property it looks for.
\<close>

definition scanFound :: "GpuMetrics list \<Rightarrow> DisplayScan \<Rightarrow> bool" where
  "scanFound gs sc =
     ((first_with_telemetry sc = length gs
        \<or> first_with_telemetry sc < length gs \<and> gpuHasTelemetry (gs ! first_with_telemetry sc))
      \<and> (intel_with_telemetry sc = length gs
        \<or> intel_with_telemetry sc < length gs \<and> gpuHasTelemetry (gs ! intel_with_telemetry sc)
            \<and> gpuLooksIntel (gs ! intel_with_telemetry sc))
      \<and> (first_intel sc = length gs
        \<or> first_intel sc < length gs \<and> gpuLooksIntel (gs ! first_intel sc)))"

section \<open>A synthetic counter sequence\<close>

text \<open>
  The CPU-usage series of the history after the polls of a run; a sequence of readings
  whose idle and total ticks start at \<open>i\<close> and \<open>t\<close> and grow by \<open>di\<close> and \<open>dt\<close> from
  one poll to the next, without wrapping; and a reading that holds nothing but a
  \<^verbatim>\<open>cpu\<close> line with the given user and idle counters.
\<close>

definition cpuUsageHistory :: "ProbeReadings list \<Rightarrow> real list option" where
  "cpuUsageHistory rs =
     (case mainPolls rs of Inr sh \<Rightarrow> Some (cpu_usage (snd sh)) | Inl e \<Rightarrow> None)"

fun linearTicks :: "nat \<Rightarrow> nat \<Rightarrow> nat \<Rightarrow> nat \<Rightarrow> ProbeReadings list \<Rightarrow> bool" where
  "linearTicks i di t dt [] = True"
| "linearTicks i di t dt (r # rs) =
     ((case proc_stat r of
         None \<Rightarrow> False
       | Some st \<Rightarrow> cpu_tag st = ''cpu'' \<and> unat (idle_ticks st) = i \<and> unat (total_ticks st) = t)
      \<and> linearTicks (i + di) di (t + dt) dt rs)"

definition syntheticReading :: "64 word \<Rightarrow> 64 word \<Rightarrow> ProbeReadings" where
  "syntheticReading user_v idle_v =
     \<lparr>probed_cpu = \<lparr>CpuMetrics.name = ''cpu'', total_cores = None, total_threads = None,
                    CpuMetrics.temperature_c = None, frequency_mhz = None, usage_percent = None\<rparr>,
      proc_stat = Some \<lparr>cpu_tag = ''cpu'', user = user_v, nice = 0, system = 0, idle = idle_v,
                        iowait = 0, irq = 0, softirq = 0, steal = 0\<rparr>,
      probed_ram = \<lparr>total_kb = None, available_kb = None\<rparr>,
      probed_disk = \<lparr>mount_point = ''/'', total_bytes = None, free_bytes = None\<rparr>,
      sensors_fallback = \<lparr>cpu_fan_rpm = None, cpu_power_w = None, gpu_fan_rpm = None,
                          gpu_power_w = None\<rparr>,
      nvidia_rows = [], drm_entries = [], disk_busy_percent = None\<rparr>"

text \<open>
  A canvas as \<^verbatim>\<open>createBrailleCanvas\<close> makes it holds one mask per cell, and the mask of
  the cell \<open>(x, y)\<close> is at \<^verbatim>\<open>y * width + x\<close>.
\<close>

definition canvasWellFormed :: "BrailleCanvas \<Rightarrow> bool" where
  "canvasWellFormed canvas = (length (cells canvas) = nat (width canvas * height canvas))"

definition cellIndex :: "BrailleCanvas \<Rightarrow> int \<Rightarrow> int \<Rightarrow> nat" where
  "cellIndex canvas x y = nat (y * width canvas + x)"

section \<open>Ranking order and probe fixtures\<close>

text \<open>
  The order the comparator of the two sorts induces on neighbours: \<open>a\<close> may stand before
  \<open>b\<close> when \<open>b\<close> is not ranked before \<open>a\<close>.
\<close>

definition rankedNotAfter :: "GpuMetrics \<Rightarrow> GpuMetrics \<Rightarrow> bool" where
  "rankedNotAfter a b =
     (telemetryScore a > telemetryScore b
      \<or> telemetryScore a = telemetryScore b \<and> name a \<le> name b)"

text \<open>
  A sensors-text fallback that found nothing, and a \<^verbatim>\<open>card*\<close> entry with a device
  directory in which nothing is readable.
\<close>

definition SensorsFallbackMetrics_default :: SensorsFallbackMetrics where
  "SensorsFallbackMetrics_default =
     \<lparr>cpu_fan_rpm = None, cpu_power_w = None, gpu_fan_rpm = None, gpu_power_w = None\<rparr>"

definition bareCard :: "string \<Rightarrow> SysfsCard" where
  "bareCard n =
     \<lparr>card_name = n, device_exists = True, class_code = None, vendor_id = None,
      driver_name = None, card_in_use = None, hwmon = [], gt_cur_freq_mhz = None,
      amd_clock_mhz = None, gpu_busy_percent = None, vram_used_bytes = None,
      vram_total_bytes = None\<rparr>"

section \<open>The assignment of supplements\<close>

text \<open>
  The sysfs indices that supplemented some record, in the order of the tool's records;
  the choices of the fusion loop of \<^verbatim>\<open>src/metrics/gpu.cpp\<close>; and what one search for a
  supplement does to the \<^verbatim>\<open>sysfs_used\<close> flags: nothing when it finds none, and
  otherwise it sets the flag of an entry that was unused.
\<close>

definition pickedIndices :: "nat option list \<Rightarrow> nat list" where
  "pickedIndices picks = concat (map (\<lambda>p. case p of None \<Rightarrow> [] | Some i \<Rightarrow> [i]) picks)"

definition fusionPicks :: "GpuMetrics list \<Rightarrow> GpuMetrics list \<Rightarrow> nat option list" where
  "fusionPicks nvidia sysfs = fst (snd (fusionAssignment nvidia sysfs))"

definition takenFrom :: "bool list \<Rightarrow> nat option \<Rightarrow> bool list \<Rightarrow> bool" where
  "takenFrom before r after =
     (case r of
        None \<Rightarrow> after = before
      | Some idx \<Rightarrow> idx < length before \<and> \<not> before ! idx \<and> after = before[idx := True])"

text \<open>A row of the query tool that carries a name and no readable number.\<close>

definition bareRow :: "string \<Rightarrow> NvidiaRow" where
  "bareRow n =
     \<lparr>row_name = n, row_temperature = None, row_clock = None, row_utilization = None,
      row_power = None, row_memory_used = None, row_memory_total = None\<rparr>"

section \<open>Temperature normalisation\<close>

text \<open>
  C6. For every integer raw reading \<open>v\<close>: the normalised value is \<open>v / 1000\<close> when
  \<open>|v| > 1000\<close> and \<open>v\<close> itself otherwise; it is returned exactly when it lies in
  \<open>[0, 150]\<close>, and the reading is absent otherwise. A returned value is always the
  normalised value, never a bound substituted for it: in integer terms only readings in
  \<open>0..150\<close> and in \<open>1001..150000\<close> produce a value.
\<close>

theorem normalizeTemperatureC_spec:
  "normalizeTemperatureC v =
     (if (if \<bar>v\<bar> > 1000 then real_of_int v / 1000 else real_of_int v) \<in> {0..150}
      then Some (if \<bar>v\<bar> > 1000 then real_of_int v / 1000 else real_of_int v)
      else None)
   \<and> (normalizeTemperatureC v \<noteq> None \<longleftrightarrow> (0 \<le> v \<and> v \<le> 150) \<or> (1000 < v \<and> v \<le> 150000))
   \<and> (\<forall>c. normalizeTemperatureC v = Some c \<longrightarrow> 0 \<le> c \<and> c \<le> 150)"
  by (auto simp: normalizeTemperatureC_def Let_def)

theorem normalizeTemperatureC_spec_witness:
  "normalizeTemperatureC 45000 = Some 45 \<and> normalizeTemperatureC 72 = Some 72
   \<and> normalizeTemperatureC 151 = None \<and> normalizeTemperatureC 150001 = None
   \<and> normalizeTemperatureC (- 5000) = None"
  using normalizeTemperatureC_spec [of 45000] normalizeTemperatureC_spec [of 72]
    normalizeTemperatureC_spec [of 151] normalizeTemperatureC_spec [of 150001]
    normalizeTemperatureC_spec [of "- 5000"]
  by simp

section \<open>The CPU usage sampler\<close>

lemma collect_state:
  "cpu_tag st = ''cpu'' \<Longrightarrow>
   snd (collectCpuUsagePercent s (Some st)) =
     \<lparr>prev_idle = idle_ticks st, prev_total = total_ticks st, initialized = True\<rparr>"
  by (auto simp: collectCpuUsagePercent_def Let_def)

lemma collect_reset:
  "cpu_tag st = ''cpu'' \<Longrightarrow>
   \<not> initialized s \<or> total_ticks st < prev_total s \<or> idle_ticks st < prev_idle s \<Longrightarrow>
   fst (collectCpuUsagePercent s (Some st)) = None"
  by (auto simp: collectCpuUsagePercent_def Let_def)

lemma collect_zero:
  "cpu_tag st = ''cpu'' \<Longrightarrow> total_ticks st = prev_total s \<Longrightarrow>
   fst (collectCpuUsagePercent s (Some st)) = None"
  by (auto simp: collectCpuUsagePercent_def Let_def)

lemma unat_delta: "(a::64 word) \<le> b \<Longrightarrow> real (unat (b - a)) = real (unat b) - real (unat a)"
  by (simp add: unat_sub word_le_nat_alt del: of_nat_unat)

lemma unsigned_delta: "(a::64 word) \<le> b \<Longrightarrow> (unsigned (b - a) :: real) = unsigned b - unsigned a"
  using unat_delta [of a b] by simp

lemma collect_rate:
  assumes "cpu_tag st = ''cpu''" "initialized s" "prev_total s < total_ticks st"
    "prev_idle s \<le> idle_ticks st"
  shows "fst (collectCpuUsagePercent s (Some st)) =
     Some (max 0 (min 100 (100 * (1 - (real (unat (idle_ticks st)) - real (unat (prev_idle s)))
                                    / (real (unat (total_ticks st)) - real (unat (prev_total s)))))))"
proof -
  have t: "prev_total s \<le> total_ticks st" using assms(3) by simp
  have nz: "total_ticks st - prev_total s \<noteq> 0" using assms(3) by auto
  have a: "\<not> total_ticks st < prev_total s" using assms(3) by simp
  have b: "\<not> idle_ticks st < prev_idle s" using assms(4) by simp
  show ?thesis
    using assms(1,2) nz a b
    by (simp add: collectCpuUsagePercent_def Let_def unsigned_delta [OF t] unsigned_delta [OF assms(4)] algebra_simps)
qed

lemma collect_range:
  "fst (collectCpuUsagePercent s stat) = Some u \<Longrightarrow> 0 \<le> u \<and> u \<le> 100"
  by (auto simp: collectCpuUsagePercent_def Let_def split: option.splits if_splits)

lemma ticks_unat:
  "unat (idle_ticks st) = (unat (idle st) + unat (iowait st)) mod 2 ^ 64"
  "unat (total_ticks st) = (unat (user st) + unat (nice st) + unat (system st) + unat (idle st)
      + unat (iowait st) + unat (irq st) + unat (softirq st) + unat (steal st)) mod 2 ^ 64"
  by (simp_all add: idle_ticks_def total_ticks_def unat_word_ariths mod_simps)

text \<open>
  C1. For every call of the sampler that reads a \<open>cpu\<close> line: the new idle and total
  ticks become the stored baseline; on the first call, or when the total or the idle ticks
  are smaller than the stored ones, the call returns no value; when the total did not
  advance it returns no value; otherwise it returns \<open>100 * (1 - \<Delta>idle / \<Delta>total)\<close> clamped
  to \<open>[0, 100]\<close>. Idle ticks are \<open>idle + iowait\<close> and total ticks the sum of the eight
  counters, both in 64-bit unsigned arithmetic. A returned value is never negative, and
  the baseline (idle 100, total 1000) followed by (idle 150, total 1100) yields 50.
\<close>

theorem collectCpuUsagePercent_spec:
  assumes "cpu_tag st = ''cpu''"
  shows
    "snd (collectCpuUsagePercent s (Some st)) =
       \<lparr>prev_idle = idle_ticks st, prev_total = total_ticks st, initialized = True\<rparr>
     \<and> (\<not> initialized s \<or> total_ticks st < prev_total s \<or> idle_ticks st < prev_idle s
          \<longrightarrow> fst (collectCpuUsagePercent s (Some st)) = None)
     \<and> (total_ticks st = prev_total s \<longrightarrow> fst (collectCpuUsagePercent s (Some st)) = None)
     \<and> (initialized s \<and> prev_total s < total_ticks st \<and> prev_idle s \<le> idle_ticks st
          \<longrightarrow> fst (collectCpuUsagePercent s (Some st)) =
                Some (max 0 (min 100
                  (100 * (1 - (real (unat (idle_ticks st)) - real (unat (prev_idle s)))
                              / (real (unat (total_ticks st)) - real (unat (prev_total s))))))))
     \<and> (\<forall>u. fst (collectCpuUsagePercent s (Some st)) = Some u \<longrightarrow> 0 \<le> u \<and> u \<le> 100)
     \<and> unat (idle_ticks st) = (unat (idle st) + unat (iowait st)) mod 2 ^ 64
     \<and> unat (total_ticks st) =
           (unat (user st) + unat (nice st) + unat (system st) + unat (idle st)
            + unat (iowait st) + unat (irq st) + unat (softirq st) + unat (steal st)) mod 2 ^ 64
     \<and> (initialized s \<and> prev_idle s = 100 \<and> prev_total s = 1000
          \<and> idle_ticks st = 150 \<and> total_ticks st = 1100
          \<longrightarrow> fst (collectCpuUsagePercent s (Some st)) = Some 50)"
proof -
  have ex: "fst (collectCpuUsagePercent s (Some st)) = Some 50"
    if "initialized s" "prev_idle s = 100" "prev_total s = 1000"
       "idle_ticks st = 150" "total_ticks st = 1100"
    using collect_rate [OF assms, of s] that by simp
  show ?thesis
    using collect_state [OF assms, of s] collect_reset [OF assms, of s]
      collect_zero [OF assms, of s] collect_rate [OF assms, of s]
      collect_range [of s "Some st"] ticks_unat [of st] ex
    by blast
qed

theorem collectCpuUsagePercent_spec_witness:
  "collectCpuUsagePercent CpuUsageState_default
     (Some \<lparr>cpu_tag = ''cpu'', user = 900, nice = 0, system = 0, idle = 90, iowait = 10,
            irq = 0, softirq = 0, steal = 0\<rparr>)
     = (None, \<lparr>prev_idle = 100, prev_total = 1000, initialized = True\<rparr>)
   \<and> collectCpuUsagePercent \<lparr>prev_idle = 100, prev_total = 1000, initialized = True\<rparr>
     (Some \<lparr>cpu_tag = ''cpu'', user = 950, nice = 0, system = 0, idle = 120, iowait = 30,
            irq = 0, softirq = 0, steal = 0\<rparr>)
     = (Some 50, \<lparr>prev_idle = 150, prev_total = 1100, initialized = True\<rparr>)
   \<and> collectCpuUsagePercent \<lparr>prev_idle = 150, prev_total = 1100, initialized = True\<rparr>
     (Some \<lparr>cpu_tag = ''cpu'', user = 900, nice = 0, system = 0, idle = 90, iowait = 10,
            irq = 0, softirq = 0, steal = 0\<rparr>)
     = (None, \<lparr>prev_idle = 100, prev_total = 1000, initialized = True\<rparr>)"
  using
    collectCpuUsagePercent_spec [of "\<lparr>cpu_tag = ''cpu'', user = 900, nice = 0, system = 0,
      idle = 90, iowait = 10, irq = 0, softirq = 0, steal = 0\<rparr>" CpuUsageState_default]
    collectCpuUsagePercent_spec [of "\<lparr>cpu_tag = ''cpu'', user = 950, nice = 0, system = 0,
      idle = 120, iowait = 30, irq = 0, softirq = 0, steal = 0\<rparr>"
      "\<lparr>prev_idle = 100, prev_total = 1000, initialized = True\<rparr>"]
    collectCpuUsagePercent_spec [of "\<lparr>cpu_tag = ''cpu'', user = 900, nice = 0, system = 0,
      idle = 90, iowait = 10, irq = 0, softirq = 0, steal = 0\<rparr>"
      "\<lparr>prev_idle = 150, prev_total = 1100, initialized = True\<rparr>"]
  by (simp add: prod_eq_iff idle_ticks_def total_ticks_def CpuUsageState_default_def)

section \<open>The bounded history store\<close>

lemma clampPercent_range: "0 \<le> clampPercent v \<and> clampPercent v \<le> 100"
  by (simp add: clampPercent_def)

lemma clampPercent_id: "0 \<le> v \<Longrightarrow> v \<le> 100 \<Longrightarrow> clampPercent v = v"
  by (simp add: clampPercent_def)

lemma append_as_drop:
  "appendHistoryValue s v n =
     drop (length s + 1 - n)
       (s @ [clampPercent (case v of Some x \<Rightarrow> x | None \<Rightarrow> if s = [] then 0 else last s)])"
  by (simp add: appendHistoryValue_def Let_def)

lemma append_length: "length (appendHistoryValue s v n) = min (length s + 1) n"
  by (simp add: append_as_drop)

lemma append_percent: "percentSeries s \<Longrightarrow> percentSeries (appendHistoryValue s v n)"
  unfolding percentSeries_def append_as_drop
  using clampPercent_range by (auto dest!: in_set_dropD)

lemma append_missing:
  assumes "percentSeries s"
  shows "appendHistoryValue s None n =
           drop (length s + 1 - n) (s @ [if s = [] then 0 else last s])"
proof (cases "s = []")
  case True
  then show ?thesis by (simp add: append_as_drop clampPercent_def)
next
  case False
  then have "last s \<in> set s" by simp
  then have "clampPercent (last s) = last s"
    using assms by (auto simp: percentSeries_def intro: clampPercent_id)
  then show ?thesis using False by (simp add: append_as_drop)
qed

lemma appends_snoc:
  "appendHistoryValues s (vs @ [v]) n = appendHistoryValue (appendHistoryValues s vs n) v n"
  by (simp add: appendHistoryValues_def)

lemma appends_length: "0 < n \<Longrightarrow> length (appendHistoryValues [] vs n) = min (length vs) n"
  by (induction vs rule: rev_induct) (auto simp: appends_snoc append_length appendHistoryValues_def)

lemma appends_percent: "percentSeries s \<Longrightarrow> percentSeries (appendHistoryValues s vs n)"
  by (induction vs rule: rev_induct) (auto simp: appends_snoc append_percent appendHistoryValues_def)

lemma appends_suffix:
  assumes "0 < n" "n \<le> m"
  shows "appendHistoryValues [] vs n =
           drop (length (appendHistoryValues [] vs m) - n) (appendHistoryValues [] vs m)"
proof (induction vs rule: rev_induct)
  case Nil
  then show ?case by (simp add: appendHistoryValues_def)
next
  case (snoc v vs)
  define a where "a = appendHistoryValues [] vs n"
  define b where "b = appendHistoryValues [] vs m"
  have ab: "a = drop (length b - n) b" using snoc by (simp add: a_def b_def)
  have lb: "length b = min (length vs) m" using assms by (simp add: b_def appends_length)
  have la: "length a = min (length b) n"
  proof -
    have "length a = length b - (length b - n)" by (subst ab) simp
    then show ?thesis by arith
  qed
  have emp: "a = [] \<longleftrightarrow> b = []"
  proof -
    have "length a = 0 \<longleftrightarrow> length b = 0" using la assms by arith
    then show ?thesis by simp
  qed
  have lst: "a \<noteq> [] \<Longrightarrow> last a = last b" using ab by simp
  define x where "x = clampPercent (case v of Some x \<Rightarrow> x | None \<Rightarrow> if b = [] then 0 else last b)"
  have xa: "clampPercent (case v of Some x \<Rightarrow> x | None \<Rightarrow> if a = [] then 0 else last a) = x"
    using emp lst by (auto simp: x_def split: option.splits)
  have A: "appendHistoryValues [] (vs @ [v]) n = drop (length a + 1 - n) (a @ [x])"
    by (simp add: appends_snoc append_as_drop a_def [symmetric] xa del: drop_append)
  have B: "appendHistoryValues [] (vs @ [v]) m = drop (length b + 1 - m) (b @ [x])"
    by (simp add: appends_snoc append_as_drop b_def [symmetric] x_def del: drop_append)
  have lbm: "length b \<le> m" using lb by simp
  have k: "(length a + 1 - n) + (length b - n)
             = (length b + 1 - (length b + 1 - m) - n) + (length b + 1 - m)"
    using la lbm assms by arith
  have "a @ [x] = drop (length b - n) (b @ [x])"
    by (subst ab) simp
  then have "drop (length a + 1 - n) (a @ [x]) = drop ((length a + 1 - n) + (length b - n)) (b @ [x])"
    by (simp only: drop_drop)
  also have "\<dots> = drop (length (drop (length b + 1 - m) (b @ [x])) - n)
                      (drop (length b + 1 - m) (b @ [x]))"
    by (simp only: k drop_drop length_drop length_append list.size) simp
  finally show ?case by (simp only: A B)
qed

lemma append_missing_last:
  assumes "0 < n" "percentSeries s"
  shows "last (appendHistoryValue s None n) = (if s = [] then 0 else last s)"
proof -
  have "length s + 1 - n \<le> length s" using assms(1) by arith
  then show ?thesis
    by (simp add: append_missing [OF assms(2)] del: drop_append)
qed

lemma updateHistory_lengths:
  assumes "0 < n" "updateHistory h snap n d = Inr h'"
  shows "length (cpu_usage h') \<le> n \<and> length (cpu_temp h') \<le> n \<and> length (ram_usage h') \<le> n
         \<and> length (gpu_usage h') \<le> n \<and> length (gpu_vram_usage h') \<le> n
         \<and> length (disk_usage h') \<le> n"
  using assms
  by (auto simp: updateHistory_def append_length split: sum.splits)

text \<open>
  C2. For every capacity \<open>N > 0\<close>: after an append a series has \<open>min (length + 1) N\<close>
  entries, so never more than \<open>N\<close>, and after a run of appends from the empty series
  exactly \<open>min (number of appends) N\<close>; what is evicted is the oldest part, the series
  being the last \<open>N\<close> entries of the one a larger capacity would hold; every stored
  value lies in \<open>[0, 100]\<close>; and appending a missing sample to a series of such values
  appends its last value unchanged, or 0 when it is empty. \<^verbatim>\<open>updateHistory\<close> keeps all
  six series within the capacity.
\<close>

theorem history_series_bounded:
  assumes "0 < N"
  shows
    "length (appendHistoryValue s v N) = min (length s + 1) N
     \<and> length (appendHistoryValue s v N) \<le> N
     \<and> (percentSeries s \<longrightarrow> percentSeries (appendHistoryValue s v N))
     \<and> (percentSeries s \<longrightarrow>
           appendHistoryValue s None N = drop (length s + 1 - N) (s @ [if s = [] then 0 else last s])
           \<and> last (appendHistoryValue s None N) = (if s = [] then 0 else last s))
     \<and> length (appendHistoryValues [] vs N) = min (length vs) N
     \<and> percentSeries (appendHistoryValues [] vs N)
     \<and> (N \<le> M \<longrightarrow>
           appendHistoryValues [] vs N =
             drop (length (appendHistoryValues [] vs M) - N) (appendHistoryValues [] vs M))
     \<and> (\<forall>h'. updateHistory h snap N d = Inr h' \<longrightarrow>
           length (cpu_usage h') \<le> N \<and> length (cpu_temp h') \<le> N \<and> length (ram_usage h') \<le> N
           \<and> length (gpu_usage h') \<le> N \<and> length (gpu_vram_usage h') \<le> N
           \<and> length (disk_usage h') \<le> N)"
proof -
  have e: "percentSeries []" by (simp add: percentSeries_def)
  have c1: "length (appendHistoryValue s v N) = min (length s + 1) N"
    by (rule append_length)
  have c2: "length (appendHistoryValue s v N) \<le> N"
    by (simp add: c1)
  have c3: "percentSeries s \<longrightarrow> percentSeries (appendHistoryValue s v N)"
    by (simp add: append_percent)
  have c4: "percentSeries s \<longrightarrow>
           appendHistoryValue s None N = drop (length s + 1 - N) (s @ [if s = [] then 0 else last s])
           \<and> last (appendHistoryValue s None N) = (if s = [] then 0 else last s)"
    using append_missing [of s N] append_missing_last [OF assms, of s] by blast
  have c5: "length (appendHistoryValues [] vs N) = min (length vs) N"
    by (rule appends_length [OF assms])
  have c6: "percentSeries (appendHistoryValues [] vs N)"
    by (rule appends_percent [OF e])
  have c7: "N \<le> M \<longrightarrow>
           appendHistoryValues [] vs N =
             drop (length (appendHistoryValues [] vs M) - N) (appendHistoryValues [] vs M)"
    using appends_suffix [OF assms, of M vs] by blast
  have c8: "\<forall>h'. updateHistory h snap N d = Inr h' \<longrightarrow>
           length (cpu_usage h') \<le> N \<and> length (cpu_temp h') \<le> N \<and> length (ram_usage h') \<le> N
           \<and> length (gpu_usage h') \<le> N \<and> length (gpu_vram_usage h') \<le> N
           \<and> length (disk_usage h') \<le> N"
    using updateHistory_lengths [OF assms, of h snap d] by blast
  from c1 c2 c3 c4 c5 c6 c7 c8 show ?thesis
    by (intro conjI)
qed

theorem history_series_bounded_witness:
  "appendHistoryValue [10, 20, 30] None 3 = [20, 30, 30]
   \<and> appendHistoryValue [] None 3 = [0]
   \<and> appendHistoryValues [] [Some 5, None, Some 250, Some (- 4), None] 3 = [100, 0, 0]
   \<and> appendHistoryValues [] [Some 5, None, Some 250, Some (- 4), None] 5 = [5, 5, 100, 0, 0]
   \<and> updateHistory MetricsHistory_default
         \<lparr>cpu = \<lparr>CpuMetrics.name = ''cpu0'', total_cores = None, total_threads = None,
                  CpuMetrics.temperature_c = Some 41, frequency_mhz = None, usage_percent = Some 250\<rparr>,
          ram = \<lparr>total_kb = Some 8, available_kb = Some 6\<rparr>,
          disk = \<lparr>mount_point = ''/'', total_bytes = None, free_bytes = None\<rparr>,
          gpus = []\<rparr> 3 None
       = Inr \<lparr>cpu_usage = [100], cpu_temp = [41], ram_usage = [25], gpu_usage = [0],
              gpu_vram_usage = [0], disk_usage = [0]\<rparr>"
proof -
  have u: "updateHistory MetricsHistory_default
         \<lparr>cpu = \<lparr>CpuMetrics.name = ''cpu0'', total_cores = None, total_threads = None,
                  CpuMetrics.temperature_c = Some 41, frequency_mhz = None, usage_percent = Some 250\<rparr>,
          ram = \<lparr>total_kb = Some 8, available_kb = Some 6\<rparr>,
          disk = \<lparr>mount_point = ''/'', total_bytes = None, free_bytes = None\<rparr>,
          gpus = []\<rparr> 3 None
       = Inr \<lparr>cpu_usage = [100], cpu_temp = [41], ram_usage = [25], gpu_usage = [0],
              gpu_vram_usage = [0], disk_usage = [0]\<rparr>"
    by (simp add: updateHistory_def MetricsHistory_default_def appendHistoryValue_def
        clampPercent_def computeGpuUsagePercent_def computeGpuVramUsagePercent_def
        computeRamUsagePercent_def computeDiskUsagePercent_def)
  have p: "percentSeries [10, 20, 30]" "percentSeries []"
    by (simp_all add: percentSeries_def)
  have five: "appendHistoryValues [] [Some 5, None, Some 250, Some (- 4), None] 5 = [5, 5, 100, 0, 0]"
    by (simp add: appendHistoryValues_def appendHistoryValue_def clampPercent_def)
  have h: "(0::nat) < 3" "(3::nat) \<le> 5" by simp_all
  show ?thesis
    using history_series_bounded [OF h(1), of "[10, 20, 30]" None
        "[Some 5, None, Some 250, Some (- 4), None]" 5 MetricsHistory_default
        "\<lparr>cpu = \<lparr>CpuMetrics.name = ''cpu0'', total_cores = None, total_threads = None,
                  CpuMetrics.temperature_c = Some 41, frequency_mhz = None, usage_percent = Some 250\<rparr>,
          ram = \<lparr>total_kb = Some 8, available_kb = Some 6\<rparr>,
          disk = \<lparr>mount_point = ''/'', total_bytes = None, free_bytes = None\<rparr>,
          gpus = []\<rparr>" None]
      history_series_bounded [OF h(1), of "[]" None "[]" 3] p h(2) five u
    by simp
qed

section \<open>Display GPU selection\<close>

lemma displayScanStep_found:
  "i < length gs \<Longrightarrow> scanFound gs sc \<Longrightarrow> scanFound gs (displayScanStep gs sc i)"
  unfolding scanFound_def displayScanStep_def Let_def by auto

lemma foldl_scan_found:
  "\<forall>i\<in>set is. i < length gs \<Longrightarrow> scanFound gs sc \<Longrightarrow>
   scanFound gs (foldl (displayScanStep gs) sc is)"
  by (induction "is" arbitrary: sc) (simp_all add: displayScanStep_found)

lemma displayScan_found: "scanFound gs (displayScan gs)"
  unfolding displayScan_def
  by (rule foldl_scan_found) (simp_all add: scanFound_def)

lemma pickDisplayGpuIndex_less: "gs \<noteq> [] \<Longrightarrow> pickDisplayGpuIndex gs < length gs"
  using displayScan_found [of gs]
  by (auto simp: pickDisplayGpuIndex_def scanFound_def Let_def)

lemma pickDisplayGpuIndex_scanned:
  "pickDisplayGpuIndex gs = 0 \<or> gpuHasTelemetry (gs ! pickDisplayGpuIndex gs)
     \<or> gpuLooksIntel (gs ! pickDisplayGpuIndex gs)"
  using displayScan_found [of gs]
  by (auto simp: pickDisplayGpuIndex_def scanFound_def Let_def)

lemma computeGpuUsagePercent_safe:
  "computeGpuUsagePercent snap =
     Inr (if gpus snap = [] then None
          else utilization_percent (gpus snap ! pickDisplayGpuIndex (gpus snap)))"
  by (simp add: computeGpuUsagePercent_def element_at_def pickDisplayGpuIndex_less)

lemma computeGpuVramUsagePercent_safe: "\<exists>v. computeGpuVramUsagePercent snap = Inr v"
  by (simp add: computeGpuVramUsagePercent_def element_at_def pickDisplayGpuIndex_less
      split: option.splits)

lemma updateHistory_safe: "\<exists>h'. updateHistory h snap n d = Inr h'"
  using computeGpuVramUsagePercent_safe [of snap]
  by (auto simp: updateHistory_def computeGpuUsagePercent_safe)

text \<open>
  C10. For every non-empty GPU list \<^verbatim>\<open>pickDisplayGpuIndex\<close> returns an index below the
  length of the list: the result is 0 or an index at which the scan found telemetry or an
  Intel GPU. Therefore the unchecked element accesses of \<^verbatim>\<open>computeGpuUsagePercent\<close> and
  \<^verbatim>\<open>computeGpuVramUsagePercent\<close>, made after their emptiness check, never leave the
  vector.
\<close>

theorem pickDisplayGpuIndex_in_bounds:
  "(gs \<noteq> [] \<longrightarrow>
      pickDisplayGpuIndex gs < length gs
      \<and> (pickDisplayGpuIndex gs = 0 \<or> gpuHasTelemetry (gs ! pickDisplayGpuIndex gs)
           \<or> gpuLooksIntel (gs ! pickDisplayGpuIndex gs)))
   \<and> (\<exists>v. computeGpuUsagePercent snap = Inr v)
   \<and> (\<exists>v. computeGpuVramUsagePercent snap = Inr v)
   \<and> (gpus snap \<noteq> [] \<longrightarrow>
        element_at (gpus snap) (pickDisplayGpuIndex (gpus snap))
          = Inr (gpus snap ! pickDisplayGpuIndex (gpus snap))
        \<and> computeGpuUsagePercent snap
          = Inr (utilization_percent (gpus snap ! pickDisplayGpuIndex (gpus snap))))"
  using pickDisplayGpuIndex_less [of gs] pickDisplayGpuIndex_scanned [of gs]
    computeGpuVramUsagePercent_safe [of snap] pickDisplayGpuIndex_less [of "gpus snap"]
  by (simp add: computeGpuUsagePercent_safe element_at_def)

theorem pickDisplayGpuIndex_in_bounds_witness:
  "pickDisplayGpuIndex
     [GpuMetrics_default\<lparr>name := ''card0 (AMD)'', source := ''sysfs/radeon''\<rparr>,
      GpuMetrics_default\<lparr>name := ''card1 (Intel)'', source := ''sysfs/i915'',
                         utilization_percent := Some 12\<rparr>] = 1
   \<and> computeGpuUsagePercent
       \<lparr>cpu = \<lparr>CpuMetrics.name = ''cpu0'', total_cores = None, total_threads = None,
                CpuMetrics.temperature_c = None, frequency_mhz = None, usage_percent = None\<rparr>,
        ram = \<lparr>total_kb = None, available_kb = None\<rparr>,
        disk = \<lparr>mount_point = ''/'', total_bytes = None, free_bytes = None\<rparr>,
        gpus = [GpuMetrics_default\<lparr>name := ''card0 (AMD)'', source := ''sysfs/radeon''\<rparr>,
                GpuMetrics_default\<lparr>name := ''card1 (Intel)'', source := ''sysfs/i915'',
                                   utilization_percent := Some 12\<rparr>]\<rparr> = Inr (Some 12)"
proof -
  have e: "pickDisplayGpuIndex
     [GpuMetrics_default\<lparr>name := ''card0 (AMD)'', source := ''sysfs/radeon''\<rparr>,
      GpuMetrics_default\<lparr>name := ''card1 (Intel)'', source := ''sysfs/i915'',
                         utilization_percent := Some 12\<rparr>] = 1"
    by code_simp
  show ?thesis
    using pickDisplayGpuIndex_in_bounds
      [of "[GpuMetrics_default\<lparr>name := ''card0 (AMD)'', source := ''sysfs/radeon''\<rparr>,
            GpuMetrics_default\<lparr>name := ''card1 (Intel)'', source := ''sysfs/i915'',
                         utilization_percent := Some 12\<rparr>]"
          "\<lparr>cpu = \<lparr>CpuMetrics.name = ''cpu0'', total_cores = None, total_threads = None,
                CpuMetrics.temperature_c = None, frequency_mhz = None, usage_percent = None\<rparr>,
        ram = \<lparr>total_kb = None, available_kb = None\<rparr>,
        disk = \<lparr>mount_point = ''/'', total_bytes = None, free_bytes = None\<rparr>,
        gpus = [GpuMetrics_default\<lparr>name := ''card0 (AMD)'', source := ''sysfs/radeon''\<rparr>,
                GpuMetrics_default\<lparr>name := ''card1 (Intel)'', source := ''sysfs/i915'',
                                   utilization_percent := Some 12\<rparr>]\<rparr>"] e
    by (simp add: GpuMetrics_default_def)
qed

section \<open>End to end: polls over linear counters\<close>

lemma updateHistory_cpu_usage:
  assumes "0 < n"
  shows "\<exists>h'. updateHistory h snap n d = Inr h'
           \<and> cpu_usage h' = appendHistoryValue (cpu_usage h) (usage_percent (cpu snap)) n"
  using assms computeGpuVramUsagePercent_safe [of snap]
  by (auto simp: updateHistory_def computeGpuUsagePercent_safe)

lemma pollOnce_cpu_usage:
  "\<exists>h'. pollOnce (s, h) r = Inr (snd (collectCpuUsagePercent s (proc_stat r)), h')
     \<and> cpu_usage h' = appendHistoryValue (cpu_usage h)
                         (fst (collectCpuUsagePercent s (proc_stat r))) kHistoryPoints"
proof -
  obtain u s' where c: "collectCpuUsagePercent s (proc_stat r) = (u, s')"
    by (cases "collectCpuUsagePercent s (proc_stat r)")
  obtain snap where sn: "collectSnapshot s r = (snap, s')" "usage_percent (cpu snap) = u"
    by (simp add: collectSnapshot_def collectCpuMetrics_def c)
  have "0 < kHistoryPoints" by (simp add: kHistoryPoints_def)
  from updateHistory_cpu_usage [OF this, of "h" snap "disk_busy_percent r"]
  obtain h' where "updateHistory h snap kHistoryPoints (disk_busy_percent r) = Inr h'"
    "cpu_usage h' = appendHistoryValue (cpu_usage h) u kHistoryPoints"
    using sn(2) by auto
  then show ?thesis
    by (simp add: pollOnce_def sn c)
qed

lemma append_room:
  "length xs < n \<Longrightarrow> appendHistoryValue xs (Some v) n = xs @ [clampPercent v]"
  by (simp add: appendHistoryValue_def)

lemma runPolls_linear:
  assumes "0 < dt" "di \<le> dt"
  shows "linearTicks (i + di) di (t + dt) dt rs \<Longrightarrow> initialized s \<Longrightarrow>
         unat (prev_idle s) = i \<Longrightarrow> unat (prev_total s) = t \<Longrightarrow>
         length (cpu_usage h) + length rs \<le> kHistoryPoints \<Longrightarrow>
         \<exists>s' h'. runPolls (s, h) rs = Inr (s', h')
            \<and> cpu_usage h' = cpu_usage h @ replicate (length rs) (100 * (1 - real di / real dt))"
proof (induction rs arbitrary: s h i t)
  case Nil
  then show ?case by simp
next
  case (Cons r rs)
  from Cons.prems(1) obtain st where st: "proc_stat r = Some st" "cpu_tag st = ''cpu''"
    "unat (idle_ticks st) = i + di" "unat (total_ticks st) = t + dt"
    and rest: "linearTicks (i + di + di) di (t + dt + dt) dt rs"
    by (auto split: option.splits)
  have lt: "prev_total s < total_ticks st"
    using st(4) Cons.prems(4) assms(1) by (simp add: word_less_nat_alt)
  have le: "prev_idle s \<le> idle_ticks st"
    using st(3) Cons.prems(3) by (simp add: word_le_nat_alt)
  have frac: "0 \<le> real di / real dt" "real di / real dt \<le> 1"
    using assms by simp_all
  have cl: "max 0 (min 100 (100 * (1 - q))) = 100 * (1 - q)" if "0 \<le> q" "q \<le> 1" for q :: real
    using that by (simp add: max_def min_def)
  have d1: "real (unat (idle_ticks st)) - real (unat (prev_idle s)) = real di"
    by (simp add: st(3) Cons.prems(3))
  have d2: "real (unat (total_ticks st)) - real (unat (prev_total s)) = real dt"
    by (simp add: st(4) Cons.prems(4))
  have u: "fst (collectCpuUsagePercent s (Some st)) = Some (100 * (1 - real di / real dt))"
    by (simp only: collect_rate [OF st(2) Cons.prems(2) lt le] d1 d2 cl [OF frac])
  have s': "snd (collectCpuUsagePercent s (Some st)) =
      \<lparr>prev_idle = idle_ticks st, prev_total = total_ticks st, initialized = True\<rparr>"
    by (rule collect_state [OF st(2)])
  from pollOnce_cpu_usage [of s h r] obtain h1 where
    p: "pollOnce (s, h) r = Inr (\<lparr>prev_idle = idle_ticks st, prev_total = total_ticks st,
           initialized = True\<rparr>, h1)"
    and h1: "cpu_usage h1 = appendHistoryValue (cpu_usage h) (Some (100 * (1 - real di / real dt)))
               kHistoryPoints"
    by (auto simp: st(1) u s')
  have room: "length (cpu_usage h) < kHistoryPoints" using Cons.prems(5) by simp
  have h1': "cpu_usage h1 = cpu_usage h @ [100 * (1 - real di / real dt)]"
    by (simp only: h1 append_room [OF room] clampPercent_def cl [OF frac])
  have "\<exists>s' h'. runPolls (\<lparr>prev_idle = idle_ticks st, prev_total = total_ticks st,
           initialized = True\<rparr>, h1) rs = Inr (s', h')
            \<and> cpu_usage h' = cpu_usage h1 @ replicate (length rs) (100 * (1 - real di / real dt))"
    using rest st(3,4) Cons.prems(5) by (intro Cons.IH) (simp_all add: h1')
  then show ?case
    by (auto simp: p h1' replicate_app_Cons_same)
qed

lemma mainPolls_linear:
  assumes "0 < dt" "di \<le> dt" "linearTicks i di t dt (r # rs)" "length rs < kHistoryPoints"
  shows "cpuUsageHistory (r # rs) = Some (0 # replicate (length rs) (100 * (1 - real di / real dt)))"
proof -
  from assms(3) obtain st where st: "proc_stat r = Some st" "cpu_tag st = ''cpu''"
    "unat (idle_ticks st) = i" "unat (total_ticks st) = t"
    and rest: "linearTicks (i + di) di (t + dt) dt rs"
    by (auto split: option.splits)
  have u: "fst (collectCpuUsagePercent CpuUsageState_default (Some st)) = None"
    by (rule collect_reset [OF st(2)]) (simp add: CpuUsageState_default_def)
  have s': "snd (collectCpuUsagePercent CpuUsageState_default (Some st)) =
      \<lparr>prev_idle = idle_ticks st, prev_total = total_ticks st, initialized = True\<rparr>"
    by (rule collect_state [OF st(2)])
  from pollOnce_cpu_usage [of CpuUsageState_default MetricsHistory_default r] obtain h1 where
    p: "pollOnce (CpuUsageState_default, MetricsHistory_default) r =
          Inr (\<lparr>prev_idle = idle_ticks st, prev_total = total_ticks st, initialized = True\<rparr>, h1)"
    and h1: "cpu_usage h1 = appendHistoryValue (cpu_usage MetricsHistory_default) None kHistoryPoints"
    by (auto simp: st(1) u s')
  have h1': "cpu_usage h1 = [0]"
    by (simp add: h1 MetricsHistory_default_def appendHistoryValue_def clampPercent_def
        kHistoryPoints_def)
  have "\<exists>s' h'. runPolls (\<lparr>prev_idle = idle_ticks st, prev_total = total_ticks st,
           initialized = True\<rparr>, h1) rs = Inr (s', h')
            \<and> cpu_usage h' = cpu_usage h1 @ replicate (length rs) (100 * (1 - real di / real dt))"
    using rest st(3,4) assms(4) by (intro runPolls_linear [OF assms(1,2)]) (simp_all add: h1')
  then show ?thesis
    by (auto simp: cpuUsageHistory_def mainPolls_def p h1')
qed

text \<open>
  C9, as the code has it. Polls over a counter sequence whose total ticks grow by
  \<open>dt > 0\<close> and whose idle ticks grow by \<open>di \<le> dt\<close> per poll give a CPU-usage series
  with one entry per poll: the first poll sets the baseline, returns no usage, and the
  missing sample is stored as 0 in the empty series; every later entry is
  \<open>100 * (1 - di / dt)\<close>. Five polls give a series of length 5.
\<close>

theorem poll_history_linear:
  assumes "0 < dt" "di \<le> dt" "linearTicks i di t dt rs"
  shows "(rs \<noteq> [] \<and> length rs \<le> kHistoryPoints \<longrightarrow>
            cpuUsageHistory rs = Some (0 # replicate (length rs - 1) (100 * (1 - real di / real dt))))
         \<and> (length rs = 5 \<longrightarrow>
            cpuUsageHistory rs =
              Some [0, 100 * (1 - real di / real dt), 100 * (1 - real di / real dt),
                    100 * (1 - real di / real dt), 100 * (1 - real di / real dt)])"
proof -
  have g: "cpuUsageHistory rs = Some (0 # replicate (length rs - 1) (100 * (1 - real di / real dt)))"
    if "rs \<noteq> []" "length rs \<le> kHistoryPoints"
  proof -
    from that(1) obtain r rs' where rs: "rs = r # rs'" by (cases rs) auto
    then have "length rs' < kHistoryPoints" using that(2) by simp
    from mainPolls_linear [OF assms(1,2) assms(3) [unfolded rs] this] show ?thesis
      by (simp add: rs)
  qed
  have five: "cpuUsageHistory rs =
              Some [0, 100 * (1 - real di / real dt), 100 * (1 - real di / real dt),
                    100 * (1 - real di / real dt), 100 * (1 - real di / real dt)]"
    if "length rs = 5"
  proof -
    have "rs \<noteq> []" "length rs \<le> kHistoryPoints" using that by (auto simp: kHistoryPoints_def)
    from g [OF this] show ?thesis by (simp add: that numeral_eq_Suc)
  qed
  from g five show ?thesis by blast
qed

theorem poll_history_linear_witness:
  "cpuUsageHistory
     [syntheticReading 0 0, syntheticReading 75 25, syntheticReading 150 50,
      syntheticReading 225 75, syntheticReading 300 100] = Some [0, 75, 75, 75, 75]"
proof -
  have l: "linearTicks 0 25 0 100
     [syntheticReading 0 0, syntheticReading 75 25, syntheticReading 150 50,
      syntheticReading 225 75, syntheticReading 300 100]"
    by (simp add: syntheticReading_def idle_ticks_def total_ticks_def)
  have h: "(0::nat) < 100" "(25::nat) \<le> 100" by simp_all
  show ?thesis
    using poll_history_linear [OF h l] by simp
qed

text \<open>
  The series of five such polls has five entries, not four: the first poll contributes
  the entry 0.
\<close>

theorem poll_history_counterexample:
  "cpuUsageHistory
     [syntheticReading 900 100, syntheticReading 950 150, syntheticReading 1000 200,
      syntheticReading 1050 250, syntheticReading 1100 300] = Some [0, 50, 50, 50, 50]
   \<and> map_option length (cpuUsageHistory
     [syntheticReading 900 100, syntheticReading 950 150, syntheticReading 1000 200,
      syntheticReading 1050 250, syntheticReading 1100 300]) \<noteq> Some 4"
proof -
  have l: "linearTicks 100 50 1000 100
     [syntheticReading 900 100, syntheticReading 950 150, syntheticReading 1000 200,
      syntheticReading 1050 250, syntheticReading 1100 300]"
    by (simp add: syntheticReading_def idle_ticks_def total_ticks_def)
  have "cpuUsageHistory
     [syntheticReading 900 100, syntheticReading 950 150, syntheticReading 1000 200,
      syntheticReading 1050 250, syntheticReading 1100 300] = Some [0, 50, 50, 50, 50]"
    using mainPolls_linear [OF _ _ l] by (simp add: kHistoryPoints_def numeral_eq_Suc)
  then show ?thesis by simp
qed

section \<open>The canvas rasterizer\<close>

lemma addCanvasMask_dims [simp]:
  "width (addCanvasMask c x y m) = width c" "height (addCanvasMask c x y m) = height c"
  by (simp_all add: addCanvasMask_def Let_def)

lemma isInside_addCanvasMask [simp]:
  "isInsideCanvas (addCanvasMask c x y m) x' y' = isInsideCanvas c x' y'"
  by (simp add: isInsideCanvas_def)

lemma connect_right:
  "isInsideCanvas c x y \<Longrightarrow> isInsideCanvas c (x + 1) y \<Longrightarrow>
   connectCanvasCells c x y (x + 1) y =
     addCanvasMask (addCanvasMask c x y kDirRight) (x + 1) y kDirLeft"
  by (simp add: connectCanvasCells_def)

lemma rasterize_two_cells:
  assumes "isInsideCanvas c x y" "isInsideCanvas c (x + 1) y"
  shows "rasterizeBrailleLine c x y (x + 1) y =
     Some (addCanvasMask
            (addCanvasMask (addCanvasMask (addCanvasMask c x y kDirPoint) x y kDirRight)
               (x + 1) y kDirLeft)
            (x + 1) y kDirPoint)"
proof -
  let ?c0 = "addCanvasMask c x y kDirPoint"
  have step: "rasterizeLoop (x + 1) y 1 0 1 (- 1) ?c0 x y 1 =
     rasterizeLoop (x + 1) y 1 0 1 (- 1)
       (addCanvasMask (connectCanvasCells ?c0 x y (x + 1) y) (x + 1) y kDirPoint) (x + 1) y 1"
    by (subst rasterizeLoop.simps) (simp add: Let_def)
  have stop: "rasterizeLoop (x + 1) y 1 0 1 (- 1) c' (x + 1) y 1 = Some c'" for c'
    by (subst rasterizeLoop.simps) simp
  show ?thesis
    using assms
    by (simp add: rasterizeBrailleLine_def Let_def step stop connect_right)
qed

lemma cellIndex_less:
  assumes "canvasWellFormed c" "isInsideCanvas c x y"
  shows "cellIndex c x y < length (cells c)"
proof -
  from assms(2) have b: "0 \<le> x" "x < width c" "0 \<le> y" "y < height c"
    by (simp_all add: isInsideCanvas_def)
  have "y * width c + x < (y + 1) * width c" using b by (simp add: algebra_simps)
  also have "\<dots> \<le> height c * width c"
    using b by (intro mult_right_mono) simp_all
  finally have "y * width c + x < width c * height c" by (simp add: mult.commute)
  moreover have "0 \<le> y * width c + x" using b by simp
  ultimately show ?thesis using assms(1) by (simp add: cellIndex_def canvasWellFormed_def)
qed

lemma cellIndex_neighbour:
  assumes "isInsideCanvas c x y"
  shows "cellIndex c (x + 1) y = Suc (cellIndex c x y)"
proof -
  define k where "k = y * width c + x"
  from assms have "0 \<le> k" by (simp add: isInsideCanvas_def k_def)
  then have "nat (k + 1) = Suc (nat k)" by arith
  moreover have "y * width c + (x + 1) = k + 1" by (simp add: k_def)
  ultimately show ?thesis by (simp only: cellIndex_def k_def)
qed

lemma addCanvasMask_cells:
  "isInsideCanvas c x y \<Longrightarrow>
   cells (addCanvasMask c x y m) = (cells c)[cellIndex c x y := cells c ! cellIndex c x y OR m]"
  by (simp add: addCanvasMask_def cellIndex_def Let_def)

lemma glyph_right: "glyphForMask (kDirPoint OR kDirRight) = 0x2500"
  by (simp add: glyphForMask_def kDirUp_def kDirDown_def kDirLeft_def kDirRight_def kDirPoint_def)

lemma glyph_left: "glyphForMask (kDirLeft OR kDirPoint) = 0x2500"
  by (simp add: glyphForMask_def kDirUp_def kDirDown_def kDirLeft_def kDirRight_def kDirPoint_def)

lemma glyph_point: "glyphForMask kDirPoint = 0xb7"
  by (simp add: glyphForMask_def kDirUp_def kDirDown_def kDirLeft_def kDirRight_def kDirPoint_def)

lemma glyph_blank: "glyphForMask 0 = 0x20"
  by (simp add: glyphForMask_def kDirUp_def kDirDown_def kDirLeft_def kDirRight_def kDirPoint_def)

lemma rasterize_two_cells_masks:
  assumes "canvasWellFormed c" "isInsideCanvas c x y" "isInsideCanvas c (x + 1) y"
  shows "\<exists>c'. rasterizeBrailleLine c x y (x + 1) y = Some c'
           \<and> width c' = width c \<and> height c' = height c
           \<and> cells c' = (cells c)
                [cellIndex c x y := cells c ! cellIndex c x y OR kDirPoint OR kDirRight,
                 cellIndex c (x + 1) y := cells c ! cellIndex c (x + 1) y OR kDirLeft OR kDirPoint]"
proof -
  have l0: "cellIndex c x y < length (cells c)" by (rule cellIndex_less [OF assms(1,2)])
  have l1: "cellIndex c (x + 1) y < length (cells c)" by (rule cellIndex_less [OF assms(1,3)])
  have n: "cellIndex c (x + 1) y \<noteq> cellIndex c x y"
    by (simp add: cellIndex_neighbour [OF assms(2)])
  have ci: "cellIndex (addCanvasMask c' a b m) = cellIndex c'" for c' a b m
    by (simp add: cellIndex_def fun_eq_iff)
  show ?thesis
    using assms(2,3) l0 l1 n
    by (simp add: rasterize_two_cells addCanvasMask_cells ci list_update_swap [of "cellIndex c (x + 1) y"]
        or.assoc)
qed

lemma drawBrailleLayer_cell:
  assumes "isInsideCanvas c x y" "cells c \<noteq> []" "cells c ! cellIndex c x y \<noteq> 0"
  shows "(top_row + y, left_col + x, glyphForMask (cells c ! cellIndex c x y))
           \<in> set (drawBrailleLayer c top_row left_col)"
proof -
  from assms(1) have b: "0 \<le> x" "x < width c" "0 \<le> y" "y < height c"
    by (simp_all add: isInsideCanvas_def)
  have xs: "x \<in> set [0..width c - 1]" and ys: "y \<in> set [0..height c - 1]"
    using b by simp_all
  have pos: "\<not> (width c \<le> 0 \<or> height c \<le> 0 \<or> cells c = [])"
    using b assms(2) by simp
  show ?thesis
    unfolding drawBrailleLayer_def if_not_P [OF pos] set_concat set_map
    using xs ys assms(3)
    by (auto simp: cellIndex_def Let_def intro!: bexI [of _ y] bexI [of _ x])
qed

lemma glyph_horizontal:
  assumes v: "bits AND (kDirUp OR kDirDown) = 0" and h: "bits AND (kDirLeft OR kDirRight) \<noteq> 0"
  shows "glyphForMask bits = 0x2500"
proof -
  define D where "D = bits AND (kDirUp OR kDirDown OR kDirLeft OR kDirRight)"
  have D3: "D AND 3 = 0"
  proof -
    have "D AND 3 = bits AND (15 AND 3)"
      by (simp add: D_def kDirUp_def kDirDown_def kDirLeft_def kDirRight_def and.assoc)
    then show ?thesis using v by (simp add: kDirUp_def kDirDown_def)
  qed
  have D12: "D AND 12 \<noteq> 0"
  proof -
    have "D AND 12 = bits AND (15 AND 12)"
      by (simp add: D_def kDirUp_def kDirDown_def kDirLeft_def kDirRight_def and.assoc)
    then show ?thesis using h by (simp add: kDirLeft_def kDirRight_def)
  qed
  have ne: "D \<noteq> k" if "k AND 3 \<noteq> 0" for k using D3 that by auto
  have n0: "D \<noteq> 0" using D12 by auto
  have "D \<noteq> 3" "D \<noteq> 10" "D \<noteq> 6" "D \<noteq> 9" "D \<noteq> 5" "D \<noteq> 11" "D \<noteq> 7" "D \<noteq> 14" "D \<noteq> 13"
    "D \<noteq> 15"
    by (rule ne, simp)+
  moreover have "glyphForMask bits =
      (if D = 0 then (if bits AND 16 \<noteq> 0 then 0xb7 else 0x20)
       else if D = 12 then 0x2500 else if D = 3 then 0x2502 else if D = 10 then 0x250c
       else if D = 6 then 0x2510 else if D = 9 then 0x2514 else if D = 5 then 0x2518
       else if D = 11 then 0x251c else if D = 7 then 0x2524 else if D = 14 then 0x252c
       else if D = 13 then 0x2534 else if D = 15 then 0x253c
       else if D AND 12 \<noteq> 0 then 0x2500 else 0x2502)"
    by (simp add: glyphForMask_def D_def Let_def kDirUp_def kDirDown_def kDirLeft_def
        kDirRight_def kDirPoint_def)
  ultimately show ?thesis
    using n0 D12 by simp
qed

lemma or_and_numerals:
  fixes m :: "16 word"
  assumes "m AND (kDirUp OR kDirDown) = 0"
  shows "(m OR kDirPoint OR kDirRight) AND (kDirUp OR kDirDown) = 0"
    "(m OR kDirPoint OR kDirRight) AND (kDirLeft OR kDirRight) \<noteq> 0"
    "(m OR kDirLeft OR kDirPoint) AND (kDirUp OR kDirDown) = 0"
    "(m OR kDirLeft OR kDirPoint) AND (kDirLeft OR kDirRight) \<noteq> 0"
proof -
  show "(m OR kDirPoint OR kDirRight) AND (kDirUp OR kDirDown) = 0"
    using assms by (simp add: bit.conj_disj_distrib2 kDirUp_def kDirDown_def kDirPoint_def kDirRight_def)
  show "(m OR kDirLeft OR kDirPoint) AND (kDirUp OR kDirDown) = 0"
    using assms by (simp add: bit.conj_disj_distrib2 kDirUp_def kDirDown_def kDirPoint_def kDirLeft_def)
  have a: "((m OR kDirPoint OR kDirRight) AND (kDirLeft OR kDirRight)) AND 8 = (m AND 8) OR 8"
    by (simp add: and.assoc bit.conj_disj_distrib2 kDirLeft_def kDirRight_def kDirPoint_def)
  show "(m OR kDirPoint OR kDirRight) AND (kDirLeft OR kDirRight) \<noteq> 0"
  proof
    assume "(m OR kDirPoint OR kDirRight) AND (kDirLeft OR kDirRight) = 0"
    with a have "(m AND 8) OR 8 = 0" by simp
    then show False by (simp add: or_eq_0_iff)
  qed
  have b: "((m OR kDirLeft OR kDirPoint) AND (kDirLeft OR kDirRight)) AND 4 = (m AND 4) OR 4"
    by (simp add: and.assoc bit.conj_disj_distrib2 kDirLeft_def kDirRight_def kDirPoint_def)
  show "(m OR kDirLeft OR kDirPoint) AND (kDirLeft OR kDirRight) \<noteq> 0"
  proof
    assume "(m OR kDirLeft OR kDirPoint) AND (kDirLeft OR kDirRight) = 0"
    with b have "(m AND 4) OR 4 = 0" by simp
    then show False by (simp add: or_eq_0_iff)
  qed
qed

lemma drawBrailleLayer_set:
  "p \<in> set (drawBrailleLayer d top_row left_col) \<longleftrightarrow>
     cells d \<noteq> []
     \<and> (\<exists>u v. isInsideCanvas d u v \<and> cells d ! cellIndex d u v \<noteq> 0
            \<and> p = (top_row + v, left_col + u, glyphForMask (cells d ! cellIndex d u v)))"
proof (cases "width d \<le> 0 \<or> height d \<le> 0 \<or> cells d = []")
  case True
  then show ?thesis
    by (auto simp: drawBrailleLayer_def isInsideCanvas_def)
next
  case False
  have "p \<in> set (drawBrailleLayer d top_row left_col) \<longleftrightarrow>
      (\<exists>v\<in>{0..height d - 1}. \<exists>u\<in>{0..width d - 1}.
          cells d ! nat (v * width d + u) \<noteq> 0
          \<and> p = (top_row + v, left_col + u, glyphForMask (cells d ! nat (v * width d + u))))"
    unfolding drawBrailleLayer_def if_not_P [OF False]
    by (auto simp: Let_def split: if_splits)
  also have "\<dots> \<longleftrightarrow> (\<exists>u v. isInsideCanvas d u v \<and> cells d ! cellIndex d u v \<noteq> 0
            \<and> p = (top_row + v, left_col + u, glyphForMask (cells d ! cellIndex d u v)))"
    by (auto simp: isInsideCanvas_def cellIndex_def)
  finally show ?thesis using False by simp
qed

lemma diag:
  "rasterizeBrailleLine \<lparr>width = 3, height = 2, cells = [0, 0, 0, 0, 0, 0]\<rparr> 0 1 1 0 =
     Some \<lparr>width = 3, height = 2, cells = [0, 0x12, 0, 0x18, 0x05, 0]\<rparr>"
proof -
  have stop: "rasterizeLoop 1 0 1 1 1 (- 1) c' 1 0 0 = Some c'" for c'
    by (subst rasterizeLoop.simps) simp
  show ?thesis
    unfolding rasterizeBrailleLine_def
    apply (simp add: isInsideCanvas_def Let_def)
    apply (subst rasterizeLoop.simps)
    apply (simp add: Let_def stop connectCanvasCells_def addCanvasMask_def isInsideCanvas_def
        kDirUp_def kDirDown_def kDirLeft_def kDirRight_def kDirPoint_def)
    done
qed

lemma pair_after_diag:
  "rasterizeBrailleLine \<lparr>width = 3, height = 2, cells = [0, 0x12, 0, 0x18, 0x05, 0]\<rparr> 1 0 2 0 =
     Some \<lparr>width = 3, height = 2, cells = [0, 0x1a, 0x14, 0x18, 0x05, 0]\<rparr>"
proof -
  have stop: "rasterizeLoop 2 0 1 0 1 (- 1) c' 2 0 1 = Some c'" for c'
    by (subst rasterizeLoop.simps) simp
  show ?thesis
    unfolding rasterizeBrailleLine_def
    apply (simp add: isInsideCanvas_def Let_def)
    apply (subst rasterizeLoop.simps)
    apply (simp add: Let_def stop connectCanvasCells_def addCanvasMask_def isInsideCanvas_def
        kDirUp_def kDirDown_def kDirLeft_def kDirRight_def kDirPoint_def)
    done
qed

lemma draw_after:
  "drawBrailleLayer \<lparr>width = 3, height = 2, cells = [0, 0x1a, 0x14, 0x18, 0x05, 0]\<rparr> 0 0 =
     [(0, 1, 0x250c), (0, 2, 0x2500), (1, 0, 0x2500), (1, 1, 0x2518)]"
  by (simp add: drawBrailleLayer_def glyphForMask_def upto_rec1 Let_def
        kDirUp_def kDirDown_def kDirLeft_def kDirRight_def kDirPoint_def)

text \<open>
  C8, as the code has it. On every canvas that holds one mask per cell and contains the
  cells \<open>(x, y)\<close> and \<open>(x + 1, y)\<close>, rasterizing the line between them returns, adds the
  point and right bits to the mask of \<open>(x, y)\<close> and the left and point bits to the mask
  of \<open>(x + 1, y)\<close>, and changes no other cell. A cell of the two that had no up or down
  bit before renders as the horizontal glyph U+2500 afterwards; in particular, where the
  two cells were blank their masks are right+point and left+point and the layer draws
  U+2500 at both positions. The layer draws exactly the cells with a non-zero mask, each
  with the glyph of its mask, so a cell whose mask is only the point bit is drawn as the
  middle dot U+00B7.
\<close>

theorem rasterize_horizontal_pair:
  assumes "canvasWellFormed c" "isInsideCanvas c x y" "isInsideCanvas c (x + 1) y"
  shows
    "(\<exists>c'. rasterizeBrailleLine c x y (x + 1) y = Some c'
        \<and> width c' = width c \<and> height c' = height c
        \<and> cells c' = (cells c)
             [cellIndex c x y := cells c ! cellIndex c x y OR kDirPoint OR kDirRight,
              cellIndex c (x + 1) y := cells c ! cellIndex c (x + 1) y OR kDirLeft OR kDirPoint]
        \<and> (cells c ! cellIndex c x y = 0 \<and> cells c ! cellIndex c (x + 1) y = 0 \<longrightarrow>
             cells c' ! cellIndex c x y = kDirPoint OR kDirRight
             \<and> cells c' ! cellIndex c (x + 1) y = kDirLeft OR kDirPoint
             \<and> (top_row + y, left_col + x, 0x2500) \<in> set (drawBrailleLayer c' top_row left_col)
             \<and> (top_row + y, left_col + (x + 1), 0x2500)
                   \<in> set (drawBrailleLayer c' top_row left_col))
        \<and> (cells c ! cellIndex c x y AND (kDirUp OR kDirDown) = 0 \<longrightarrow>
             glyphForMask (cells c' ! cellIndex c x y) = 0x2500)
        \<and> (cells c ! cellIndex c (x + 1) y AND (kDirUp OR kDirDown) = 0 \<longrightarrow>
             glyphForMask (cells c' ! cellIndex c (x + 1) y) = 0x2500))
     \<and> glyphForMask (kDirPoint OR kDirRight) = 0x2500
     \<and> glyphForMask (kDirLeft OR kDirPoint) = 0x2500
     \<and> glyphForMask kDirPoint = 0xb7
     \<and> (isInsideCanvas d u v \<and> cells d \<noteq> [] \<and> cells d ! cellIndex d u v = kDirPoint \<longrightarrow>
          (top_row + v, left_col + u, 0xb7) \<in> set (drawBrailleLayer d top_row left_col))
     \<and> (p \<in> set (drawBrailleLayer d top_row left_col) \<longleftrightarrow>
          cells d \<noteq> []
          \<and> (\<exists>u v. isInsideCanvas d u v \<and> cells d ! cellIndex d u v \<noteq> 0
                 \<and> p = (top_row + v, left_col + u, glyphForMask (cells d ! cellIndex d u v))))"
proof -
  from rasterize_two_cells_masks [OF assms] obtain c' where
    r: "rasterizeBrailleLine c x y (x + 1) y = Some c'" and
    d: "width c' = width c" "height c' = height c" and
    cs: "cells c' = (cells c)
             [cellIndex c x y := cells c ! cellIndex c x y OR kDirPoint OR kDirRight,
              cellIndex c (x + 1) y := cells c ! cellIndex c (x + 1) y OR kDirLeft OR kDirPoint]"
    by blast
  have l0: "cellIndex c x y < length (cells c)" by (rule cellIndex_less [OF assms(1,2)])
  have l1: "cellIndex c (x + 1) y < length (cells c)" by (rule cellIndex_less [OF assms(1,3)])
  have n: "cellIndex c (x + 1) y \<noteq> cellIndex c x y"
    by (simp add: cellIndex_neighbour [OF assms(2)])
  have ci: "cellIndex c' = cellIndex c" by (simp add: cellIndex_def fun_eq_iff d)
  have ins: "isInsideCanvas c' x y" "isInsideCanvas c' (x + 1) y"
    using assms(2,3) by (simp_all add: isInsideCanvas_def d)
  have ne: "cells c' \<noteq> []" using l0 by (auto simp: cs)
  have blank: "cells c' ! cellIndex c x y = kDirPoint OR kDirRight
             \<and> cells c' ! cellIndex c (x + 1) y = kDirLeft OR kDirPoint
             \<and> (top_row + y, left_col + x, 0x2500) \<in> set (drawBrailleLayer c' top_row left_col)
             \<and> (top_row + y, left_col + (x + 1), 0x2500)
                   \<in> set (drawBrailleLayer c' top_row left_col)"
    if z: "cells c ! cellIndex c x y = 0" "cells c ! cellIndex c (x + 1) y = 0"
  proof -
    have v0: "cells c' ! cellIndex c' x y = kDirPoint OR kDirRight"
      using l0 l1 n z by (simp add: cs ci)
    have v1: "cells c' ! cellIndex c' (x + 1) y = kDirLeft OR kDirPoint"
      using l0 l1 n z by (simp add: cs ci)
    have nz0: "cells c' ! cellIndex c' x y \<noteq> 0"
      by (simp add: v0 kDirPoint_def kDirRight_def)
    have nz1: "cells c' ! cellIndex c' (x + 1) y \<noteq> 0"
      by (simp add: v1 kDirPoint_def kDirLeft_def)
    from drawBrailleLayer_cell [OF ins(1) ne nz0, of top_row left_col]
      drawBrailleLayer_cell [OF ins(2) ne nz1, of top_row left_col]
    show ?thesis
      using v0 v1 by (simp add: ci glyph_right glyph_left)
  qed
  have g0: "glyphForMask (cells c' ! cellIndex c x y) = 0x2500"
    if "cells c ! cellIndex c x y AND (kDirUp OR kDirDown) = 0"
  proof -
    have "cells c' ! cellIndex c x y = cells c ! cellIndex c x y OR kDirPoint OR kDirRight"
      using l0 l1 n by (simp add: cs)
    then show ?thesis
      using glyph_horizontal [OF or_and_numerals(1,2) [OF that]] by simp
  qed
  have g1: "glyphForMask (cells c' ! cellIndex c (x + 1) y) = 0x2500"
    if "cells c ! cellIndex c (x + 1) y AND (kDirUp OR kDirDown) = 0"
  proof -
    have "cells c' ! cellIndex c (x + 1) y = cells c ! cellIndex c (x + 1) y OR kDirLeft OR kDirPoint"
      using l0 l1 n by (simp add: cs)
    then show ?thesis
      using glyph_horizontal [OF or_and_numerals(3,4) [OF that]] by simp
  qed
  have dot: "(top_row + v, left_col + u, 0xb7) \<in> set (drawBrailleLayer d top_row left_col)"
    if "isInsideCanvas d u v" "cells d \<noteq> []" "cells d ! cellIndex d u v = kDirPoint"
  proof -
    have "cells d ! cellIndex d u v \<noteq> 0" by (simp add: that(3) kDirPoint_def)
    from drawBrailleLayer_cell [OF that(1,2) this, of top_row left_col] show ?thesis
      by (simp add: that(3) glyph_point)
  qed
  have first: "\<exists>c'. rasterizeBrailleLine c x y (x + 1) y = Some c'
        \<and> width c' = width c \<and> height c' = height c
        \<and> cells c' = (cells c)
             [cellIndex c x y := cells c ! cellIndex c x y OR kDirPoint OR kDirRight,
              cellIndex c (x + 1) y := cells c ! cellIndex c (x + 1) y OR kDirLeft OR kDirPoint]
        \<and> (cells c ! cellIndex c x y = 0 \<and> cells c ! cellIndex c (x + 1) y = 0 \<longrightarrow>
             cells c' ! cellIndex c x y = kDirPoint OR kDirRight
             \<and> cells c' ! cellIndex c (x + 1) y = kDirLeft OR kDirPoint
             \<and> (top_row + y, left_col + x, 0x2500) \<in> set (drawBrailleLayer c' top_row left_col)
             \<and> (top_row + y, left_col + (x + 1), 0x2500)
                   \<in> set (drawBrailleLayer c' top_row left_col))
        \<and> (cells c ! cellIndex c x y AND (kDirUp OR kDirDown) = 0 \<longrightarrow>
             glyphForMask (cells c' ! cellIndex c x y) = 0x2500)
        \<and> (cells c ! cellIndex c (x + 1) y AND (kDirUp OR kDirDown) = 0 \<longrightarrow>
             glyphForMask (cells c' ! cellIndex c (x + 1) y) = 0x2500)"
    using r d cs blank g0 g1 by blast
  have dot': "isInsideCanvas d u v \<and> cells d \<noteq> [] \<and> cells d ! cellIndex d u v = kDirPoint \<longrightarrow>
          (top_row + v, left_col + u, 0xb7) \<in> set (drawBrailleLayer d top_row left_col)"
    using dot by blast
  from first glyph_right glyph_left glyph_point dot' drawBrailleLayer_set [of p d top_row left_col]
  show ?thesis
    by (intro conjI)
qed

theorem rasterize_horizontal_pair_witness:
  "rasterizeBrailleLine (createBrailleCanvas 3 2) 1 1 2 1 =
     Some \<lparr>width = 3, height = 2, cells = [0, 0, 0, 0, 0x18, 0x14]\<rparr>
   \<and> glyphForMask 0x18 = 0x2500 \<and> glyphForMask 0x14 = 0x2500 \<and> glyphForMask 0x10 = 0xb7
   \<and> (0, 0, 0xb7) \<in> set (drawBrailleLayer
         \<lparr>width = 3, height = 2, cells = [0x10, 0, 0, 0, 0x18, 0x14]\<rparr> 0 0)"
proof -
  have w: "canvasWellFormed (createBrailleCanvas 3 2)"
    "isInsideCanvas (createBrailleCanvas 3 2) 1 1" "isInsideCanvas (createBrailleCanvas 3 2) (1 + 1) 1"
    by (simp_all add: canvasWellFormed_def createBrailleCanvas_def isInsideCanvas_def)
  have c: "createBrailleCanvas 3 2 = \<lparr>width = 3, height = 2, cells = [0, 0, 0, 0, 0, 0]\<rparr>"
    by (simp add: createBrailleCanvas_def numeral_eq_Suc)
  have i: "cellIndex (createBrailleCanvas 3 2) 1 1 = 4" "cellIndex (createBrailleCanvas 3 2) (1 + 1) 1 = 5"
    by (simp_all add: cellIndex_def createBrailleCanvas_def)
  have pt: "isInsideCanvas \<lparr>width = 3, height = 2, cells = [0x10, 0, 0, 0, 0x18, 0x14]\<rparr> 0 0
      \<and> cells \<lparr>width = 3, height = 2, cells = [0x10, 0, 0, 0, 0x18, 0x14]\<rparr> \<noteq> []
      \<and> cells \<lparr>width = 3, height = 2, cells = [0x10, 0, 0, 0, 0x18, 0x14]\<rparr>
            ! cellIndex \<lparr>width = 3, height = 2, cells = [0x10, 0, 0, 0, 0x18, 0x14]\<rparr> 0 0
          = kDirPoint"
    by (simp add: isInsideCanvas_def cellIndex_def kDirPoint_def)
  note t = rasterize_horizontal_pair [OF w, where top_row = 0 and left_col = 0 and u = 0 and v = 0
      and d = "\<lparr>width = 3, height = 2, cells = [0x10, 0, 0, 0, 0x18, 0x14]\<rparr>"
      and p = "(0, 0, 0xb7)"]
  have dot: "(0, 0, 0xb7) \<in> set (drawBrailleLayer
         \<lparr>width = 3, height = 2, cells = [0x10, 0, 0, 0, 0x18, 0x14]\<rparr> 0 0)"
    using t [THEN conjunct2, THEN conjunct2, THEN conjunct2, THEN conjunct2, THEN conjunct1] pt
    by simp
  have g: "glyphForMask (kDirPoint OR kDirRight) = 0x2500" "glyphForMask (kDirLeft OR kDirPoint) = 0x2500"
    "glyphForMask kDirPoint = 0xb7"
    using t by blast+
  from t [THEN conjunct1] obtain c' where
    "rasterizeBrailleLine (createBrailleCanvas 3 2) 1 1 (1 + 1) 1 = Some c'"
    "width c' = 3" "height c' = 2" "cells c' = [0, 0, 0, 0, 0x18, 0x14]"
    unfolding i by (auto simp: c kDirPoint_def kDirRight_def kDirLeft_def)
  then show ?thesis
    using dot g by (cases c') (simp add: kDirPoint_def kDirRight_def kDirLeft_def)
qed

text \<open>
  The horizontal glyph is not drawn on every canvas. On a fresh 3 by 2 canvas the segment
  from \<open>(0, 1)\<close> to \<open>(1, 0)\<close> leaves the down and point bits at \<open>(1, 0)\<close>; the line from
  \<open>(1, 0)\<close> to \<open>(2, 0)\<close> then makes its mask down+right+point, and the layer draws the
  corner U+250C there.
\<close>

theorem rasterize_horizontal_pair_counterexample:
  "rasterizeBrailleLine (createBrailleCanvas 3 2) 0 1 1 0 =
     Some \<lparr>width = 3, height = 2, cells = [0, 0x12, 0, 0x18, 0x05, 0]\<rparr>
   \<and> rasterizeBrailleLine \<lparr>width = 3, height = 2, cells = [0, 0x12, 0, 0x18, 0x05, 0]\<rparr> 1 0 2 0 =
     Some \<lparr>width = 3, height = 2, cells = [0, 0x1a, 0x14, 0x18, 0x05, 0]\<rparr>
   \<and> glyphForMask 0x1a = 0x250c
   \<and> drawBrailleLayer \<lparr>width = 3, height = 2, cells = [0, 0x1a, 0x14, 0x18, 0x05, 0]\<rparr> 0 0 =
     [(0, 1, 0x250c), (0, 2, 0x2500), (1, 0, 0x2500), (1, 1, 0x2518)]"
proof -
  have c: "createBrailleCanvas 3 2 = \<lparr>width = 3, height = 2, cells = [0, 0, 0, 0, 0, 0]\<rparr>"
    by (simp add: createBrailleCanvas_def numeral_eq_Suc)
  have g: "glyphForMask 0x1a = 0x250c"
    by (simp add: glyphForMask_def kDirUp_def kDirDown_def kDirLeft_def kDirRight_def kDirPoint_def)
  show ?thesis
    by (simp only: c diag pair_after_diag g draw_after simp_thms)
qed

section \<open>Ranking of the fused GPU list\<close>

lemma rankedNotAfter_iff: "rankedNotAfter a b \<longleftrightarrow> \<not> gpuRankedBefore b a"
  by (auto simp: rankedNotAfter_def gpuRankedBefore_def Let_def)

lemma gpuRankedBefore_asym: "gpuRankedBefore a b \<Longrightarrow> \<not> gpuRankedBefore b a"
  by (auto simp: gpuRankedBefore_def Let_def split: if_splits)

lemma gpuRankedBefore_negtrans:
  "\<not> gpuRankedBefore a b \<Longrightarrow> \<not> gpuRankedBefore b c \<Longrightarrow> \<not> gpuRankedBefore a c"
  by (auto simp: gpuRankedBefore_def Let_def split: if_splits)

lemma set_stable_insert: "set (stable_insert before x ys) = insert x (set ys)"
  by (induction ys) auto

lemma count_stable_insert: "count_list (stable_insert before x ys) z = count_list (x # ys) z"
  by (induction ys) auto

lemma count_stable_sort: "count_list (stable_sort before xs) z = count_list xs z"
  by (induction xs) (simp_all add: stable_sort_def count_stable_insert)

lemma length_stable_insert: "length (stable_insert before x ys) = Suc (length ys)"
  by (induction ys) auto

lemma length_stable_sort: "length (stable_sort before xs) = length xs"
  by (induction xs) (simp_all add: stable_sort_def length_stable_insert)

lemma set_stable_sort: "set (stable_sort before xs) = set xs"
  by (induction xs) (simp_all add: stable_sort_def set_stable_insert)

lemma sorted_stable_insert:
  assumes asym: "\<And>a b. before a b \<Longrightarrow> \<not> before b a"
    and negtrans: "\<And>a b c. \<not> before a b \<Longrightarrow> \<not> before b c \<Longrightarrow> \<not> before a c"
  shows "sorted_wrt (\<lambda>a b. \<not> before b a) ys \<Longrightarrow>
         sorted_wrt (\<lambda>a b. \<not> before b a) (stable_insert before x ys)"
proof (induction ys)
  case Nil
  then show ?case by simp
next
  case (Cons y ys)
  show ?case
  proof (cases "before y x")
    case True
    then have "\<not> before x y" by (rule asym)
    with Cons True show ?thesis by (auto simp: set_stable_insert)
  next
    case False
    have "\<not> before z x" if "z \<in> set ys" for z
    proof -
      from Cons.prems that have "\<not> before z y" by simp
      from negtrans [OF this False] show ?thesis .
    qed
    with Cons False show ?thesis by auto
  qed
qed

lemma sorted_stable_sort:
  assumes "\<And>a b. before a b \<Longrightarrow> \<not> before b a"
    and "\<And>a b c. \<not> before a b \<Longrightarrow> \<not> before b c \<Longrightarrow> \<not> before a c"
  shows "sorted_wrt (\<lambda>a b. \<not> before b a) (stable_sort before xs)"
proof (induction xs)
  case Nil
  then show ?case by (simp add: stable_sort_def)
next
  case (Cons x xs)
  have "stable_sort before (x # xs) = stable_insert before x (stable_sort before xs)"
    by (simp add: stable_sort_def)
  with sorted_stable_insert [of before, OF assms Cons] show ?case by simp
qed

lemma filter_stable_insert:
  assumes "\<And>y. P y \<Longrightarrow> \<not> before y x"
  shows "filter P (stable_insert before x ys) = filter P (x # ys)"
  using assms by (induction ys) auto

lemma filter_stable_sort:
  assumes "\<And>x y. P x \<Longrightarrow> P y \<Longrightarrow> \<not> before y x"
  shows "filter P (stable_sort before xs) = filter P xs"
proof (induction xs)
  case Nil
  then show ?case by (simp add: stable_sort_def)
next
  case (Cons x xs)
  have s: "stable_sort before (x # xs) = stable_insert before x (stable_sort before xs)"
    by (simp add: stable_sort_def)
  show ?case
  proof (cases "P x")
    case True
    then have "\<And>y. P y \<Longrightarrow> \<not> before y x" using assms by blast
    from filter_stable_insert [of P before x, OF this] show ?thesis
      by (simp add: s Cons)
  next
    case False
    have "filter P (stable_insert before x ys) = filter P ys" for ys
      using False by (induction ys) auto
    then show ?thesis by (simp add: s Cons False)
  qed
qed

lemma ranked_sorted: "sorted_wrt rankedNotAfter (stable_sort gpuRankedBefore xs)"
proof -
  have "sorted_wrt (\<lambda>a b. \<not> gpuRankedBefore b a) (stable_sort gpuRankedBefore xs)"
  proof (rule sorted_stable_sort)
    show "\<not> gpuRankedBefore b a" if "gpuRankedBefore a b" for a b
      using that by (rule gpuRankedBefore_asym)
    show "\<not> gpuRankedBefore a c" if "\<not> gpuRankedBefore a b" "\<not> gpuRankedBefore b c" for a b c
      using that by (rule gpuRankedBefore_negtrans)
  qed
  moreover have "rankedNotAfter = (\<lambda>a b. \<not> gpuRankedBefore b a)"
    by (simp add: fun_eq_iff rankedNotAfter_iff)
  ultimately show ?thesis by simp
qed

lemma ranked_stable:
  "filter (\<lambda>g. telemetryScore g = s \<and> name g = n) (stable_sort gpuRankedBefore xs)
     = filter (\<lambda>g. telemetryScore g = s \<and> name g = n) xs"
  by (rule filter_stable_sort) (auto simp: gpuRankedBefore_def)

lemma collectGpus_sorted: "sorted_wrt rankedNotAfter (collectGpus fallback rows entries)"
  by (auto simp: collectGpus_def fuseGpus_def collectGpusFromSysfs_def ranked_sorted
      split: prod.splits)

lemma sorted_wrt_adjacent:
  "sorted_wrt R xs \<Longrightarrow> Suc i < length xs \<Longrightarrow> R (xs ! i) (xs ! Suc i)"
  by (simp add: sorted_wrt_iff_nth_less)

lemma telemetryScore_monotone:
  "telemetryScore g \<le> telemetryScore (g\<lparr>temperature_c := Some v\<rparr>)"
  "telemetryScore g \<le> telemetryScore (g\<lparr>core_clock_mhz := Some v\<rparr>)"
  "telemetryScore g \<le> telemetryScore (g\<lparr>utilization_percent := Some v\<rparr>)"
  "telemetryScore g \<le> telemetryScore (g\<lparr>power_w := Some v\<rparr>)"
  "telemetryScore g \<le> telemetryScore (g\<lparr>memory_used_mib := Some v\<rparr>)"
  "telemetryScore g \<le> telemetryScore (g\<lparr>memory_total_mib := Some v\<rparr>)"
  "telemetryScore g \<le> telemetryScore (g\<lparr>memory_utilization_percent := Some v\<rparr>)"
  "telemetryScore g \<le> telemetryScore (g\<lparr>in_use := Some b\<rparr>)"
  by (simp_all add: telemetryScore_def)

lemma sysfsGpu_bare:
  "sysfsGpu SensorsFallbackMetrics_default (bareCard n) =
     GpuMetrics_default\<lparr>name := n @ '' (Unknown)'', source := ''sysfs''\<rparr>"
  by (simp add: sysfsGpu_def bareCard_def readCardTelemetry_def readCardClock_def readCardVram_def
      SensorsFallbackMetrics_default_def GpuMetrics_default_def vendorNameFromId_def)

lemma sysfsGpu_busy:
  "sysfsGpu SensorsFallbackMetrics_default ((bareCard n)\<lparr>gpu_busy_percent := Some 30\<rparr>) =
     GpuMetrics_default\<lparr>name := n @ '' (Unknown)'', source := ''sysfs'',
                         utilization_percent := Some 30\<rparr>"
  by (simp add: sysfsGpu_def bareCard_def readCardTelemetry_def readCardClock_def readCardVram_def
      SensorsFallbackMetrics_default_def GpuMetrics_default_def vendorNameFromId_def
      normalizePercent_def)

lemma card_names_accepted: "cardNameAccepted ''card0''" "cardNameAccepted ''card1''"
  by (simp_all add: cardNameAccepted_def startsWith_def)

lemma collectGpus_two_cards:
  "collectGpus SensorsFallbackMetrics_default []
     [bareCard ''card0'', (bareCard ''card1'')\<lparr>gpu_busy_percent := Some 30\<rparr>] =
   [GpuMetrics_default\<lparr>name := ''card1 (Unknown)'', source := ''sysfs'',
                         utilization_percent := Some 30\<rparr>,
    GpuMetrics_default\<lparr>name := ''card0 (Unknown)'', source := ''sysfs''\<rparr>]"
proof -
  have f: "filter (\<lambda>dev. cardNameAccepted (card_name dev) \<and> device_exists dev \<and> isDisplayClassDevice dev)
      [bareCard ''card0'', (bareCard ''card1'')\<lparr>gpu_busy_percent := Some 30\<rparr>]
    = [bareCard ''card0'', (bareCard ''card1'')\<lparr>gpu_busy_percent := Some 30\<rparr>]"
    using card_names_accepted by (simp add: bareCard_def isDisplayClassDevice_def)
  show ?thesis
    unfolding collectGpus_def fuseGpus_def collectGpusFromNvidiaSmi_def collectGpusFromSysfs_def f
    by (simp add: sysfsGpu_bare sysfsGpu_busy stable_sort_def gpuRankedBefore_def
        telemetryScore_def GpuMetrics_default_def)
qed

lemma stable_sort_four:
  "stable_sort gpuRankedBefore
     [GpuMetrics_default\<lparr>name := ''b'', source := ''1'', power_w := Some 5\<rparr>,
      GpuMetrics_default\<lparr>name := ''a'', source := ''2'', power_w := Some 6\<rparr>,
      GpuMetrics_default\<lparr>name := ''z'', source := ''3'', utilization_percent := Some 6\<rparr>,
      GpuMetrics_default\<lparr>name := ''b'', source := ''4'', temperature_c := Some 50\<rparr>]
   = [GpuMetrics_default\<lparr>name := ''z'', source := ''3'', utilization_percent := Some 6\<rparr>,
      GpuMetrics_default\<lparr>name := ''a'', source := ''2'', power_w := Some 6\<rparr>,
      GpuMetrics_default\<lparr>name := ''b'', source := ''1'', power_w := Some 5\<rparr>,
      GpuMetrics_default\<lparr>name := ''b'', source := ''4'', temperature_c := Some 50\<rparr>]"
  by (simp add: stable_sort_def gpuRankedBefore_def telemetryScore_def GpuMetrics_default_def)

lemma telemetryScore_weights:
  "telemetryScore GpuMetrics_default = 0"
  "temperature_c g = None \<Longrightarrow> telemetryScore (g\<lparr>temperature_c := Some v\<rparr>) = telemetryScore g + 2"
  "core_clock_mhz g = None \<Longrightarrow> telemetryScore (g\<lparr>core_clock_mhz := Some v\<rparr>) = telemetryScore g + 2"
  "utilization_percent g = None \<Longrightarrow>
     telemetryScore (g\<lparr>utilization_percent := Some v\<rparr>) = telemetryScore g + 3"
  "power_w g = None \<Longrightarrow> telemetryScore (g\<lparr>power_w := Some v\<rparr>) = telemetryScore g + 2"
  "memory_used_mib g = None \<Longrightarrow> memory_total_mib g = None \<Longrightarrow>
     telemetryScore (g\<lparr>memory_used_mib := Some v\<rparr>) = telemetryScore g + 2
     \<and> telemetryScore (g\<lparr>memory_total_mib := Some v\<rparr>) = telemetryScore g + 2"
  "memory_utilization_percent g = None \<Longrightarrow>
     telemetryScore (g\<lparr>memory_utilization_percent := Some v\<rparr>) = telemetryScore g + 1"
  by (simp_all add: telemetryScore_def GpuMetrics_default_def)

lemma collectGpus_unfold:
  "collectGpus fallback rows entries =
     (if rows = []
      then stable_sort gpuRankedBefore
             (map (sysfsGpu fallback)
                (filter (\<lambda>dev. cardNameAccepted (card_name dev) \<and> device_exists dev
                                 \<and> isDisplayClassDevice dev) entries))
      else stable_sort gpuRankedBefore
             (map (applyPowerFallback fallback)
                (fst (fusionAssignment (collectGpusFromNvidiaSmi rows)
                        (collectGpusFromSysfs fallback entries)))
              @ unusedSysfs (collectGpusFromSysfs fallback entries)
                  (sysfs_used (snd (snd (fusionAssignment (collectGpusFromNvidiaSmi rows)
                                          (collectGpusFromSysfs fallback entries)))))))"
  by (simp add: collectGpus_def fuseGpus_def collectGpusFromNvidiaSmi_def collectGpusFromSysfs_def
      split: prod.splits)

text \<open>
  C4. Every list \<^verbatim>\<open>collectGpus\<close> returns is ordered: a record never stands before one
  with a higher telemetry score, and among records of equal score never before one with
  a smaller name. The list is the stable sort of the fused records, of the sysfs records
  when the tool reported none: the sort keeps the records (each as often as before) and
  keeps the order of records with equal score and name. The score adds 2 for a
  temperature, 2 for a clock, 3 for a utilization, 2 for a power, 2 for the first memory
  field and 1 for a memory utilization, so setting one more optional field never lowers
  it.
\<close>

theorem collectGpus_ranked:
  "sorted_wrt rankedNotAfter (collectGpus fallback rows entries)
   \<and> (Suc i < length (collectGpus fallback rows entries) \<longrightarrow>
        rankedNotAfter (collectGpus fallback rows entries ! i)
          (collectGpus fallback rows entries ! Suc i))
   \<and> (rankedNotAfter a b \<longleftrightarrow>
        telemetryScore b < telemetryScore a
        \<or> telemetryScore a = telemetryScore b \<and> name a \<le> name b)
   \<and> collectGpus fallback rows entries =
       (if rows = []
        then stable_sort gpuRankedBefore
               (map (sysfsGpu fallback)
                  (filter (\<lambda>dev. cardNameAccepted (card_name dev) \<and> device_exists dev
                                   \<and> isDisplayClassDevice dev) entries))
        else stable_sort gpuRankedBefore
               (map (applyPowerFallback fallback)
                  (fst (fusionAssignment (collectGpusFromNvidiaSmi rows)
                          (collectGpusFromSysfs fallback entries)))
                @ unusedSysfs (collectGpusFromSysfs fallback entries)
                    (sysfs_used (snd (snd (fusionAssignment (collectGpusFromNvidiaSmi rows)
                                            (collectGpusFromSysfs fallback entries)))))))
   \<and> filter (\<lambda>g. telemetryScore g = s \<and> name g = n) (stable_sort gpuRankedBefore xs)
       = filter (\<lambda>g. telemetryScore g = s \<and> name g = n) xs
   \<and> count_list (stable_sort gpuRankedBefore xs) z = count_list xs z
   \<and> sorted_wrt rankedNotAfter (stable_sort gpuRankedBefore xs)
   \<and> telemetryScore g \<le> telemetryScore (g\<lparr>temperature_c := Some v\<rparr>)
   \<and> telemetryScore g \<le> telemetryScore (g\<lparr>core_clock_mhz := Some v\<rparr>)
   \<and> telemetryScore g \<le> telemetryScore (g\<lparr>utilization_percent := Some v\<rparr>)
   \<and> telemetryScore g \<le> telemetryScore (g\<lparr>power_w := Some v\<rparr>)
   \<and> telemetryScore g \<le> telemetryScore (g\<lparr>memory_used_mib := Some v\<rparr>)
   \<and> telemetryScore g \<le> telemetryScore (g\<lparr>memory_total_mib := Some v\<rparr>)
   \<and> telemetryScore g \<le> telemetryScore (g\<lparr>memory_utilization_percent := Some v\<rparr>)
   \<and> telemetryScore g \<le> telemetryScore (g\<lparr>in_use := Some u\<rparr>)
   \<and> telemetryScore GpuMetrics_default = 0
   \<and> (temperature_c g = None \<longrightarrow>
        telemetryScore (g\<lparr>temperature_c := Some v\<rparr>) = telemetryScore g + 2)
   \<and> (core_clock_mhz g = None \<longrightarrow>
        telemetryScore (g\<lparr>core_clock_mhz := Some v\<rparr>) = telemetryScore g + 2)
   \<and> (utilization_percent g = None \<longrightarrow>
        telemetryScore (g\<lparr>utilization_percent := Some v\<rparr>) = telemetryScore g + 3)
   \<and> (power_w g = None \<longrightarrow> telemetryScore (g\<lparr>power_w := Some v\<rparr>) = telemetryScore g + 2)
   \<and> (memory_used_mib g = None \<and> memory_total_mib g = None \<longrightarrow>
        telemetryScore (g\<lparr>memory_used_mib := Some v\<rparr>) = telemetryScore g + 2
        \<and> telemetryScore (g\<lparr>memory_total_mib := Some v\<rparr>) = telemetryScore g + 2)
   \<and> (memory_utilization_percent g = None \<longrightarrow>
        telemetryScore (g\<lparr>memory_utilization_percent := Some v\<rparr>) = telemetryScore g + 1)"
proof -
  have adj: "Suc i < length (collectGpus fallback rows entries) \<longrightarrow>
        rankedNotAfter (collectGpus fallback rows entries ! i)
          (collectGpus fallback rows entries ! Suc i)"
    using sorted_wrt_adjacent [OF collectGpus_sorted] by blast
  have rn: "rankedNotAfter a b \<longleftrightarrow>
        telemetryScore b < telemetryScore a
        \<or> telemetryScore a = telemetryScore b \<and> name a \<le> name b"
    by (simp add: rankedNotAfter_def)
  have w: "temperature_c g = None \<longrightarrow>
        telemetryScore (g\<lparr>temperature_c := Some v\<rparr>) = telemetryScore g + 2"
    "core_clock_mhz g = None \<longrightarrow>
        telemetryScore (g\<lparr>core_clock_mhz := Some v\<rparr>) = telemetryScore g + 2"
    "utilization_percent g = None \<longrightarrow>
        telemetryScore (g\<lparr>utilization_percent := Some v\<rparr>) = telemetryScore g + 3"
    "power_w g = None \<longrightarrow> telemetryScore (g\<lparr>power_w := Some v\<rparr>) = telemetryScore g + 2"
    "memory_used_mib g = None \<and> memory_total_mib g = None \<longrightarrow>
        telemetryScore (g\<lparr>memory_used_mib := Some v\<rparr>) = telemetryScore g + 2
        \<and> telemetryScore (g\<lparr>memory_total_mib := Some v\<rparr>) = telemetryScore g + 2"
    "memory_utilization_percent g = None \<longrightarrow>
        telemetryScore (g\<lparr>memory_utilization_percent := Some v\<rparr>) = telemetryScore g + 1"
    using telemetryScore_weights(2-7) [of g v] by blast+
  from collectGpus_sorted [of fallback rows entries] adj rn
    collectGpus_unfold [of fallback rows entries] ranked_stable [of s n xs]
    count_stable_sort [of gpuRankedBefore xs z] ranked_sorted [of xs]
    telemetryScore_monotone(1-7) [of g v] telemetryScore_monotone(8) [of g u]
    telemetryScore_weights(1) w
  show ?thesis
    by (intro conjI)
qed

theorem collectGpus_ranked_witness:
  "collectGpus SensorsFallbackMetrics_default []
     [bareCard ''card0'', (bareCard ''card1'')\<lparr>gpu_busy_percent := Some 30\<rparr>] =
   [GpuMetrics_default\<lparr>name := ''card1 (Unknown)'', source := ''sysfs'',
                         utilization_percent := Some 30\<rparr>,
    GpuMetrics_default\<lparr>name := ''card0 (Unknown)'', source := ''sysfs''\<rparr>]
   \<and> rankedNotAfter
       (GpuMetrics_default\<lparr>name := ''card1 (Unknown)'', source := ''sysfs'',
                             utilization_percent := Some 30\<rparr>)
       (GpuMetrics_default\<lparr>name := ''card0 (Unknown)'', source := ''sysfs''\<rparr>)
   \<and> filter (\<lambda>g. telemetryScore g = 2 \<and> name g = ''b'')
       (stable_sort gpuRankedBefore
         [GpuMetrics_default\<lparr>name := ''b'', source := ''1'', power_w := Some 5\<rparr>,
          GpuMetrics_default\<lparr>name := ''a'', source := ''2'', power_w := Some 6\<rparr>,
          GpuMetrics_default\<lparr>name := ''z'', source := ''3'', utilization_percent := Some 6\<rparr>,
          GpuMetrics_default\<lparr>name := ''b'', source := ''4'', temperature_c := Some 50\<rparr>])
     = [GpuMetrics_default\<lparr>name := ''b'', source := ''1'', power_w := Some 5\<rparr>,
        GpuMetrics_default\<lparr>name := ''b'', source := ''4'', temperature_c := Some 50\<rparr>]
   \<and> telemetryScore (GpuMetrics_default\<lparr>temperature_c := Some 7\<rparr>) = 2"
  using collectGpus_ranked [of SensorsFallbackMetrics_default "[]"
      "[bareCard ''card0'', (bareCard ''card1'')\<lparr>gpu_busy_percent := Some 30\<rparr>]" 0
      "GpuMetrics_default\<lparr>name := ''card1 (Unknown)'', source := ''sysfs'',
                             utilization_percent := Some 30\<rparr>"
      "GpuMetrics_default\<lparr>name := ''card0 (Unknown)'', source := ''sysfs''\<rparr>"
      2 "''b''"
      "[GpuMetrics_default\<lparr>name := ''b'', source := ''1'', power_w := Some 5\<rparr>,
          GpuMetrics_default\<lparr>name := ''a'', source := ''2'', power_w := Some 6\<rparr>,
          GpuMetrics_default\<lparr>name := ''z'', source := ''3'', utilization_percent := Some 6\<rparr>,
          GpuMetrics_default\<lparr>name := ''b'', source := ''4'', temperature_c := Some 50\<rparr>]"
      _ GpuMetrics_default 7] collectGpus_two_cards
  by (simp add: telemetryScore_def GpuMetrics_default_def)

section \<open>GPU fusion\<close>

declare takeNvidiaSupplement.simps [simp del] takeAnySupplement.simps [simp del]

lemma takeNvidiaSupplement_taken:
  "\<forall>i\<in>set ixs. i < length (sysfs_used st) \<Longrightarrow>
   takeNvidiaSupplement ixs st = (r, st') \<Longrightarrow>
   takenFrom (sysfs_used st) r (sysfs_used st') \<and> next_any_index st' = next_any_index st"
proof (induction ixs st rule: takeNvidiaSupplement.induct)
  case (1 ixs st)
  show ?case
  proof (cases "next_nvidia_index st < length ixs")
    case False
    with "1.prems" show ?thesis
      by (simp add: takeNvidiaSupplement.simps [of ixs st] takenFrom_def)
  next
    case True
    define idx where "idx = ixs ! next_nvidia_index st"
    define st1 where "st1 = st\<lparr>next_nvidia_index := next_nvidia_index st + 1\<rparr>"
    have idx: "idx < length (sysfs_used st)" using True "1.prems"(1) by (simp add: idx_def)
    show ?thesis
    proof (cases "sysfs_used st ! idx")
      case False
      with True "1.prems"(2) idx show ?thesis
        by (auto simp: takeNvidiaSupplement.simps [of ixs st] takenFrom_def Let_def idx_def)
    next
      case used: True
      have rec: "takeNvidiaSupplement ixs st1 = (r, st')"
        using True used "1.prems"(2)
        by (simp add: takeNvidiaSupplement.simps [of ixs st] Let_def idx_def st1_def)
      have "takenFrom (sysfs_used st1) r (sysfs_used st') \<and> next_any_index st' = next_any_index st1"
        using True used "1.prems"(1) rec
        by (intro "1.IH" [of idx st1]) (simp_all add: idx_def st1_def)
      then show ?thesis by (simp add: st1_def)
    qed
  qed
qed

lemma takeAnySupplement_taken:
  "n \<le> length (sysfs_used st) \<Longrightarrow>
   takeAnySupplement n st = (r, st') \<Longrightarrow>
   takenFrom (sysfs_used st) r (sysfs_used st')"
proof (induction n st rule: takeAnySupplement.induct)
  case (1 n st)
  show ?case
  proof (cases "next_any_index st < n")
    case False
    with "1.prems" show ?thesis
      by (simp add: takeAnySupplement.simps [of n st] takenFrom_def)
  next
    case True
    define idx where "idx = next_any_index st"
    define st1 where "st1 = st\<lparr>next_any_index := next_any_index st + 1\<rparr>"
    have idx: "idx < length (sysfs_used st)" using True "1.prems"(1) by (simp add: idx_def)
    show ?thesis
    proof (cases "sysfs_used st ! idx")
      case False
      with True "1.prems"(2) idx show ?thesis
        by (auto simp: takeAnySupplement.simps [of n st] takenFrom_def Let_def idx_def)
    next
      case used: True
      have rec: "takeAnySupplement n st1 = (r, st')"
        using True used "1.prems"(2)
        by (simp add: takeAnySupplement.simps [of n st] Let_def idx_def st1_def)
      have "takenFrom (sysfs_used st1) r (sysfs_used st')"
        using True used "1.prems"(1) rec
        by (intro "1.IH" [of idx st1]) (simp_all add: idx_def st1_def)
      then show ?thesis by (simp add: st1_def)
    qed
  qed
qed

lemma takeSupplement_taken:
  assumes "\<forall>i\<in>set ixs. i < length (sysfs_used st)" "n \<le> length (sysfs_used st)"
    "takeSupplement ixs n st = (r, st')"
  shows "takenFrom (sysfs_used st) r (sysfs_used st')"
proof -
  obtain r1 st1 where t1: "takeNvidiaSupplement ixs st = (r1, st1)"
    by (cases "takeNvidiaSupplement ixs st")
  from takeNvidiaSupplement_taken [OF assms(1) t1]
  have k1: "takenFrom (sysfs_used st) r1 (sysfs_used st1)" by simp
  show ?thesis
  proof (cases r1)
    case (Some idx)
    with assms(3) t1 k1 show ?thesis by (simp add: takeSupplement_def)
  next
    case None
    then have u: "sysfs_used st1 = sysfs_used st" using k1 by (simp add: takenFrom_def)
    from None assms(3) t1 have "takeAnySupplement n st1 = (r, st')"
      by (simp add: takeSupplement_def)
    from takeAnySupplement_taken [OF _ this] assms(2) u show ?thesis by simp
  qed
qed

lemma pickedIndices_Cons:
  "pickedIndices (None # ps) = pickedIndices ps"
  "pickedIndices (Some i # ps) = i # pickedIndices ps"
  "pickedIndices [] = []"
  by (simp_all add: pickedIndices_def)

lemma picked_nth: "k < length ps \<Longrightarrow> ps ! k = Some i \<Longrightarrow> i \<in> set (pickedIndices ps)"
proof (induction ps arbitrary: k)
  case Nil
  then show ?case by simp
next
  case (Cons p ps)
  then show ?case
    by (cases k; cases p) (auto simp: pickedIndices_Cons)
qed

lemma picked_nth_ex: "i \<in> set (pickedIndices ps) \<Longrightarrow> \<exists>k<length ps. ps ! k = Some i"
proof (induction ps)
  case Nil
  then show ?case by (simp add: pickedIndices_Cons)
next
  case (Cons p ps)
  show ?case
  proof (cases "p = Some i")
    case True
    then show ?thesis by (intro exI [of _ 0]) simp
  next
    case False
    with Cons.prems have "i \<in> set (pickedIndices ps)"
      by (cases p) (auto simp: pickedIndices_Cons)
    from Cons.IH [OF this] obtain k where "k < length ps" "ps ! k = Some i" by blast
    then show ?thesis by (intro exI [of _ "Suc k"]) simp
  qed
qed

lemma picked_inj:
  "distinct (pickedIndices ps) \<Longrightarrow> j < length ps \<Longrightarrow> k < length ps \<Longrightarrow>
   ps ! j = Some i \<Longrightarrow> ps ! k = Some i \<Longrightarrow> j = k"
proof (induction ps arbitrary: j k)
  case Nil
  then show ?case by simp
next
  case (Cons p ps)
  show ?case
  proof (cases j)
    case j0: 0
    show ?thesis
    proof (cases k)
      case 0
      with j0 show ?thesis by simp
    next
      case (Suc k')
      with Cons.prems j0 have "p = Some i" "i \<in> set (pickedIndices ps)"
        by (auto intro: picked_nth)
      with Cons.prems(1) show ?thesis by (simp add: pickedIndices_Cons)
    qed
  next
    case js: (Suc j')
    show ?thesis
    proof (cases k)
      case 0
      with Cons.prems js have "p = Some i" "i \<in> set (pickedIndices ps)"
        by (auto intro: picked_nth)
      with Cons.prems(1) show ?thesis by (simp add: pickedIndices_Cons)
    next
      case (Suc k')
      have "distinct (pickedIndices ps)"
        using Cons.prems(1) by (cases p) (simp_all add: pickedIndices_Cons)
      from Cons.IH [OF this, of j' k'] Cons.prems js Suc show ?thesis by simp
    qed
  qed
qed

lemma fuseNvidia_inv:
  assumes ixs: "\<forall>i\<in>set ixs. i < length sysfs"
  shows "length (sysfs_used st) = length sysfs \<Longrightarrow>
     fuseNvidia sysfs ixs st nv = (merged, picks, st') \<Longrightarrow>
     length merged = length nv \<and> length picks = length nv
     \<and> length (sysfs_used st') = length sysfs
     \<and> distinct (pickedIndices picks)
     \<and> (\<forall>i\<in>set (pickedIndices picks). i < length sysfs \<and> \<not> sysfs_used st ! i)
     \<and> (\<forall>i<length sysfs. sysfs_used st' ! i \<longleftrightarrow> sysfs_used st ! i \<or> i \<in> set (pickedIndices picks))
     \<and> (\<forall>j<length nv. merged ! j =
           (case picks ! j of None \<Rightarrow> nv ! j | Some i \<Rightarrow> supplementGpu (nv ! j) (sysfs ! i)))"
proof (induction nv arbitrary: st merged picks st')
  case Nil
  then show ?case by (simp add: pickedIndices_Cons)
next
  case (Cons base rest)
  obtain extra st1 where t: "takeSupplement ixs (length sysfs) st = (extra, st1)"
    by (cases "takeSupplement ixs (length sysfs) st")
  obtain m2 p2 st2 where f: "fuseNvidia sysfs ixs st1 rest = (m2, p2, st2)"
    by (cases "fuseNvidia sysfs ixs st1 rest")
  from Cons.prems(2) t f have res:
    "merged = (case extra of None \<Rightarrow> base | Some idx \<Rightarrow> supplementGpu base (sysfs ! idx)) # m2"
    "picks = extra # p2" "st' = st2"
    by simp_all
  have tk: "takenFrom (sysfs_used st) extra (sysfs_used st1)"
    using ixs Cons.prems(1) by (intro takeSupplement_taken [OF _ _ t]) simp_all
  have l1: "length (sysfs_used st1) = length sysfs"
    using tk Cons.prems(1) by (auto simp: takenFrom_def split: option.splits)
  note ih = Cons.IH [OF l1 f]
  show ?case
  proof (cases extra)
    case None
    then have u: "sysfs_used st1 = sysfs_used st" using tk by (simp add: takenFrom_def)
    have nth: "\<forall>j<length (base # rest). merged ! j =
           (case picks ! j of None \<Rightarrow> (base # rest) ! j
            | Some i \<Rightarrow> supplementGpu ((base # rest) ! j) (sysfs ! i))"
      using ih None by (auto simp: res nth_Cons split: nat.splits option.splits)
    from ih nth show ?thesis
      by (simp add: res None pickedIndices_Cons u)
  next
    case (Some idx)
    then have idx: "idx < length sysfs" "\<not> sysfs_used st ! idx"
      and u: "sysfs_used st1 = (sysfs_used st)[idx := True]"
      using tk Cons.prems(1) by (simp_all add: takenFrom_def)
    have set1: "sysfs_used st1 ! idx" using idx u Cons.prems(1) by simp
    have notin: "idx \<notin> set (pickedIndices p2)" using ih set1 by blast
    have old: "\<not> sysfs_used st ! i" if "i \<in> set (pickedIndices p2)" for i
    proof -
      from that ih have a: "i < length sysfs" "\<not> sysfs_used st1 ! i" by blast+
      then have "i \<noteq> idx" using set1 by blast
      with a show ?thesis using Cons.prems(1) by (simp add: u)
    qed
    have flags: "sysfs_used st2 ! i \<longleftrightarrow> sysfs_used st ! i \<or> i = idx \<or> i \<in> set (pickedIndices p2)"
      if "i < length sysfs" for i
    proof -
      from ih that have "sysfs_used st2 ! i \<longleftrightarrow> sysfs_used st1 ! i \<or> i \<in> set (pickedIndices p2)"
        by blast
      moreover have "sysfs_used st1 ! i \<longleftrightarrow> sysfs_used st ! i \<or> i = idx"
        using that Cons.prems(1) by (cases "i = idx") (simp_all add: u)
      ultimately show ?thesis by blast
    qed
    have nth: "\<forall>j<length (base # rest). merged ! j =
           (case picks ! j of None \<Rightarrow> (base # rest) ! j
            | Some i \<Rightarrow> supplementGpu ((base # rest) ! j) (sysfs ! i))"
      using ih Some by (auto simp: res nth_Cons split: nat.splits option.splits)
    from ih nth notin idx old flags show ?thesis
      by (auto simp: res Some pickedIndices_Cons)
  qed
qed

lemma fusionAssignment_inv:
  assumes "fusionAssignment nvidia sysfs = (merged, picks, st)"
  shows "length merged = length nvidia \<and> length picks = length nvidia
     \<and> length (sysfs_used st) = length sysfs
     \<and> distinct (pickedIndices picks)
     \<and> (\<forall>i\<in>set (pickedIndices picks). i < length sysfs)
     \<and> (\<forall>i<length sysfs. sysfs_used st ! i \<longleftrightarrow> i \<in> set (pickedIndices picks))
     \<and> (\<forall>j<length nvidia. merged ! j =
           (case picks ! j of None \<Rightarrow> nvidia ! j | Some i \<Rightarrow> supplementGpu (nvidia ! j) (sysfs ! i)))"
proof -
  have ixs: "\<forall>i\<in>set (nvidiaSysfsIndices sysfs). i < length sysfs"
    by (simp add: nvidiaSysfsIndices_def)
  have l: "length (sysfs_used (initialFusionState sysfs)) = length sysfs"
    by (simp add: initialFusionState_def)
  from fuseNvidia_inv [OF ixs l assms [unfolded fusionAssignment_def]]
  show ?thesis
    by (auto simp: initialFusionState_def)
qed

lemma unusedSysfs_picked:
  assumes "fusionAssignment nvidia sysfs = (merged, picks, st)"
  shows "unusedSysfs sysfs (sysfs_used st) =
     map (\<lambda>i. sysfs ! i) (filter (\<lambda>i. i \<notin> set (pickedIndices picks)) [0..<length sysfs])"
proof -
  from fusionAssignment_inv [OF assms]
  have "\<forall>i<length sysfs. sysfs_used st ! i \<longleftrightarrow> i \<in> set (pickedIndices picks)" by blast
  then have "filter (\<lambda>i. \<not> sysfs_used st ! i) [0..<length sysfs]
      = filter (\<lambda>i. i \<notin> set (pickedIndices picks)) [0..<length sysfs]"
    by (intro filter_cong) auto
  then show ?thesis by (simp add: unusedSysfs_def)
qed

lemma length_filter_notin:
  assumes "distinct P" "\<forall>i\<in>set P. i < m"
  shows "length (filter (\<lambda>i. i \<notin> set P) [0..<m]) = m - length P"
proof -
  have "length (filter (\<lambda>i. i \<notin> set P) [0..<m]) = card {i. i < m \<and> i \<notin> set P}"
    by (simp add: length_filter_conv_card cong: conj_cong)
  also have "{i. i < m \<and> i \<notin> set P} = {..<m} - set P" by auto
  also have "card ({..<m} - set P) = card {..<m} - card (set P)"
    using assms(2) by (intro card_Diff_subset) auto
  also have "\<dots> = m - length P" using assms(1) by (simp add: distinct_card)
  finally show ?thesis .
qed

lemma fuseGpus_unfold:
  assumes "nvidia \<noteq> []"
  shows "fuseGpus fallback nvidia sysfs =
     stable_sort gpuRankedBefore
       (map (applyPowerFallback fallback) (fst (fusionAssignment nvidia sysfs))
        @ map (\<lambda>i. sysfs ! i)
            (filter (\<lambda>i. i \<notin> set (pickedIndices (fusionPicks nvidia sysfs))) [0..<length sysfs]))"
proof -
  obtain merged picks st where a: "fusionAssignment nvidia sysfs = (merged, picks, st)"
    by (cases "fusionAssignment nvidia sysfs")
  show ?thesis
    using assms unusedSysfs_picked [OF a] by (simp add: fuseGpus_def a fusionPicks_def)
qed

lemma fuseGpus_length:
  assumes "nvidia \<noteq> []"
  shows "length (fuseGpus fallback nvidia sysfs) =
     length nvidia + (length sysfs - length (pickedIndices (fusionPicks nvidia sysfs)))"
proof -
  obtain merged picks st where a: "fusionAssignment nvidia sysfs = (merged, picks, st)"
    by (cases "fusionAssignment nvidia sysfs")
  from fusionAssignment_inv [OF a]
  have "length merged = length nvidia" "distinct (pickedIndices picks)"
    "\<forall>i\<in>set (pickedIndices picks). i < length sysfs" by blast+
  then show ?thesis
    by (simp add: fuseGpus_unfold [OF assms] length_stable_sort a fusionPicks_def
        length_filter_notin)
qed

lemma supplements_v2_distinct:
  "distinct (supplements_v2 sysfs) \<and> (\<forall>i\<in>set (supplements_v2 sysfs). i < length sysfs)"
  by (auto simp: supplements_v2_def Let_def)

lemma fuseGpus_v2_length:
  "nvidia \<noteq> [] \<Longrightarrow> length (fuseGpus_v2 fallback nvidia sysfs) = length nvidia"
  by (simp add: fuseGpus_v2_def Let_def)

lemma fuseGpus_v2_nth:
  "nvidia \<noteq> [] \<Longrightarrow> j < length nvidia \<Longrightarrow>
   fuseGpus_v2 fallback nvidia sysfs ! j =
     applyPowerFallback fallback
       (if j < min (length nvidia) (length (supplements_v2 sysfs))
        then supplementFields (nvidia ! j) (sysfs ! (supplements_v2 sysfs ! j))
        else nvidia ! j)"
  by (simp add: fuseGpus_v2_def Let_def)

lemma sysfsGpu_busy_percent:
  "0 \<le> p \<Longrightarrow> p \<le> 100 \<Longrightarrow>
   sysfsGpu SensorsFallbackMetrics_default ((bareCard n)\<lparr>gpu_busy_percent := Some p\<rparr>) =
     GpuMetrics_default\<lparr>name := n @ '' (Unknown)'', source := ''sysfs'',
                         utilization_percent := Some (real_of_int p)\<rparr>"
  by (simp add: sysfsGpu_def bareCard_def readCardTelemetry_def readCardClock_def readCardVram_def
      SensorsFallbackMetrics_default_def GpuMetrics_default_def vendorNameFromId_def
      normalizePercent_def)

lemma sysfsGpu_v2_busy_percent:
  "0 \<le> p \<Longrightarrow> p \<le> 100 \<Longrightarrow>
   sysfsGpu_v2 SensorsFallbackMetrics_default ((bareCard n)\<lparr>gpu_busy_percent := Some p\<rparr>) =
     GpuMetrics_default\<lparr>name := n @ '' (Unknown)'', source := ''sysfs'',
                         utilization_percent := Some (real_of_int p)\<rparr>"
  by (simp add: sysfsGpu_v2_def bareCard_def readCardTelemetry_def readCardClock_def readCardVram_def
      SensorsFallbackMetrics_default_def GpuMetrics_default_def vendorNameFromId_def
      normalizePercent_def)


lemma gpuFromNvidiaRow_bare:
  "gpuFromNvidiaRow (bareRow n) = GpuMetrics_default\<lparr>name := n, source := ''nvidia-smi''\<rparr>"
  by (simp add: gpuFromNvidiaRow_def bareRow_def deriveMemoryUtilization_def GpuMetrics_default_def)

lemma sysfs_two_busy:
  "collectGpusFromSysfs SensorsFallbackMetrics_default
     [(bareCard ''card0'')\<lparr>gpu_busy_percent := Some 30\<rparr>,
      (bareCard ''card1'')\<lparr>gpu_busy_percent := Some 40\<rparr>] =
   [GpuMetrics_default\<lparr>name := ''card0 (Unknown)'', source := ''sysfs'',
                         utilization_percent := Some 30\<rparr>,
    GpuMetrics_default\<lparr>name := ''card1 (Unknown)'', source := ''sysfs'',
                         utilization_percent := Some 40\<rparr>]"
proof -
  have f: "filter (\<lambda>dev. cardNameAccepted (card_name dev) \<and> device_exists dev \<and> isDisplayClassDevice dev)
      [(bareCard ''card0'')\<lparr>gpu_busy_percent := Some 30\<rparr>,
       (bareCard ''card1'')\<lparr>gpu_busy_percent := Some 40\<rparr>]
    = [(bareCard ''card0'')\<lparr>gpu_busy_percent := Some 30\<rparr>,
       (bareCard ''card1'')\<lparr>gpu_busy_percent := Some 40\<rparr>]"
    using card_names_accepted by (simp add: bareCard_def isDisplayClassDevice_def)
  show ?thesis
    unfolding collectGpusFromSysfs_def f
    by (simp add: sysfsGpu_busy_percent stable_sort_def gpuRankedBefore_def
        telemetryScore_def GpuMetrics_default_def)
qed

lemma sysfs_v2_two_busy:
  "collectGpusFromSysfs_v2 SensorsFallbackMetrics_default
     [(bareCard ''card0'')\<lparr>gpu_busy_percent := Some 30\<rparr>,
      (bareCard ''card1'')\<lparr>gpu_busy_percent := Some 40\<rparr>] =
   [GpuMetrics_default\<lparr>name := ''card0 (Unknown)'', source := ''sysfs'',
                         utilization_percent := Some 30\<rparr>,
    GpuMetrics_default\<lparr>name := ''card1 (Unknown)'', source := ''sysfs'',
                         utilization_percent := Some 40\<rparr>]"
proof -
  have f: "filter (\<lambda>dev. cardNameAccepted (card_name dev) \<and> device_exists dev)
      [(bareCard ''card0'')\<lparr>gpu_busy_percent := Some 30\<rparr>,
       (bareCard ''card1'')\<lparr>gpu_busy_percent := Some 40\<rparr>]
    = [(bareCard ''card0'')\<lparr>gpu_busy_percent := Some 30\<rparr>,
       (bareCard ''card1'')\<lparr>gpu_busy_percent := Some 40\<rparr>]"
    using card_names_accepted by (simp add: bareCard_def)
  show ?thesis
    unfolding collectGpusFromSysfs_v2_def f
    by (simp add: sysfsGpu_v2_busy_percent hasProbeTelemetry_def GpuMetrics_default_def)
qed

lemma assignment_one_two:
  "fusionAssignment
     [GpuMetrics_default\<lparr>name := ''GeForce'', source := ''nvidia-smi''\<rparr>]
     [GpuMetrics_default\<lparr>name := ''card0 (Unknown)'', source := ''sysfs'',
                         utilization_percent := Some 30\<rparr>,
      GpuMetrics_default\<lparr>name := ''card1 (Unknown)'', source := ''sysfs'',
                         utilization_percent := Some 40\<rparr>] =
   ([GpuMetrics_default\<lparr>name := ''GeForce'', source := ''nvidia-smi'',
                          utilization_percent := Some 30\<rparr>],
    [Some 0],
    \<lparr>sysfs_used = [True, False], next_nvidia_index = 0, next_any_index = 1\<rparr>)"
proof -
  have ix: "nvidiaSysfsIndices
     [GpuMetrics_default\<lparr>name := ''card0 (Unknown)'', source := ''sysfs'',
                         utilization_percent := Some 30\<rparr>,
      GpuMetrics_default\<lparr>name := ''card1 (Unknown)'', source := ''sysfs'',
                         utilization_percent := Some 40\<rparr>] = []"
    by code_simp
  show ?thesis
    unfolding fusionAssignment_def ix
    by (simp add: initialFusionState_def takeSupplement_def takeNvidiaSupplement.simps
        takeAnySupplement.simps supplementGpu_def supplementFields_def GpuMetrics_default_def
        numeral_2_eq_2)
qed

lemma collectGpus_one_two:
  "collectGpus SensorsFallbackMetrics_default [bareRow ''GeForce'']
     [(bareCard ''card0'')\<lparr>gpu_busy_percent := Some 30\<rparr>,
      (bareCard ''card1'')\<lparr>gpu_busy_percent := Some 40\<rparr>] =
   [GpuMetrics_default\<lparr>name := ''GeForce'', source := ''nvidia-smi'',
                         utilization_percent := Some 30\<rparr>,
    GpuMetrics_default\<lparr>name := ''card1 (Unknown)'', source := ''sysfs'',
                         utilization_percent := Some 40\<rparr>]"
  unfolding collectGpus_def sysfs_two_busy collectGpusFromNvidiaSmi_def list.map
    gpuFromNvidiaRow_bare fuseGpus_def assignment_one_two
  by (simp add: unusedSysfs_def applyPowerFallback_def deriveMemoryUtilization_def
      SensorsFallbackMetrics_default_def stable_sort_def gpuRankedBefore_def telemetryScore_def
      GpuMetrics_default_def upt_rec numeral_2_eq_2)

lemma collectGpus_v2_one_two:
  "collectGpus_v2 SensorsFallbackMetrics_default [bareRow ''GeForce'']
     [(bareCard ''card0'')\<lparr>gpu_busy_percent := Some 30\<rparr>,
      (bareCard ''card1'')\<lparr>gpu_busy_percent := Some 40\<rparr>] =
   [GpuMetrics_default\<lparr>name := ''GeForce'', source := ''nvidia-smi'',
                         utilization_percent := Some 30\<rparr>]"
proof -
  have su: "supplements_v2
     [GpuMetrics_default\<lparr>name := ''card0 (Unknown)'', source := ''sysfs'',
                         utilization_percent := Some 30\<rparr>,
      GpuMetrics_default\<lparr>name := ''card1 (Unknown)'', source := ''sysfs'',
                         utilization_percent := Some 40\<rparr>] = [0, 1]"
    by code_simp
  show ?thesis
    unfolding collectGpus_v2_def sysfs_v2_two_busy collectGpusFromNvidiaSmi_def list.map
      gpuFromNvidiaRow_bare fuseGpus_v2_def su
    by (simp add: Let_def applyPowerFallback_def deriveMemoryUtilization_def supplementFields_def
        SensorsFallbackMetrics_default_def GpuMetrics_default_def)
qed

lemma fusionPicks_facts:
  "length (fusionPicks nvidia sysfs) = length nvidia
   \<and> distinct (pickedIndices (fusionPicks nvidia sysfs))
   \<and> (\<forall>i\<in>set (pickedIndices (fusionPicks nvidia sysfs)). i < length sysfs)
   \<and> (\<forall>j<length nvidia. fst (fusionAssignment nvidia sysfs) ! j =
         (case fusionPicks nvidia sysfs ! j of
            None \<Rightarrow> nvidia ! j
          | Some i \<Rightarrow> supplementGpu (nvidia ! j) (sysfs ! i)))"
proof -
  obtain merged picks st where a: "fusionAssignment nvidia sysfs = (merged, picks, st)"
    by (cases "fusionAssignment nvidia sysfs")
  from fusionAssignment_inv [OF a] show ?thesis
    by (simp add: fusionPicks_def a)
qed

lemma fusionPicks_inj:
  assumes "j < length nvidia" "k < length nvidia"
    "fusionPicks nvidia sysfs ! j = Some i" "fusionPicks nvidia sysfs ! k = Some i"
  shows "j = k"
  using fusionPicks_facts [of nvidia sysfs] assms
  by (intro picked_inj [of "fusionPicks nvidia sysfs" j k i]) simp_all

lemma fuseGpus_one_two:
  "fuseGpus SensorsFallbackMetrics_default
     [GpuMetrics_default\<lparr>name := ''GeForce'', source := ''nvidia-smi''\<rparr>]
     [GpuMetrics_default\<lparr>name := ''card0 (Unknown)'', source := ''sysfs'',
                         utilization_percent := Some 30\<rparr>,
      GpuMetrics_default\<lparr>name := ''card1 (Unknown)'', source := ''sysfs'',
                         utilization_percent := Some 40\<rparr>] =
   [GpuMetrics_default\<lparr>name := ''GeForce'', source := ''nvidia-smi'',
                         utilization_percent := Some 30\<rparr>,
    GpuMetrics_default\<lparr>name := ''card1 (Unknown)'', source := ''sysfs'',
                         utilization_percent := Some 40\<rparr>]"
  unfolding fuseGpus_def assignment_one_two
  by (simp add: unusedSysfs_def applyPowerFallback_def deriveMemoryUtilization_def
      SensorsFallbackMetrics_default_def stable_sort_def gpuRankedBefore_def telemetryScore_def
      GpuMetrics_default_def upt_rec numeral_2_eq_2)

lemma nvidiaSmi_nonempty: "rows \<noteq> [] \<Longrightarrow> collectGpusFromNvidiaSmi rows \<noteq> []"
  by (simp add: collectGpusFromNvidiaSmi_def)

text \<open>
  C3. When both probes return records, the fused list has at least as many records as
  the tool reported, and no sysfs record supplements two of the tool's records: in
  \<^verbatim>\<open>src/metrics/gpu.cpp\<close> the indices chosen by the loop are pairwise different, and
  a tool record is either unchanged or merged with the record chosen for it; in the
  second copy the \<open>j\<close>-th tool record is merged with the \<open>j\<close>-th supplement, the
  supplements are pairwise different, and the result has exactly one record per tool
  record.
\<close>

theorem fusion_supplements_once:
  assumes "nvidia \<noteq> []" "sysfs \<noteq> []"
  shows
    "length nvidia \<le> length (fuseGpus fallback nvidia sysfs)
     \<and> length (fusionPicks nvidia sysfs) = length nvidia
     \<and> distinct (pickedIndices (fusionPicks nvidia sysfs))
     \<and> (\<forall>i\<in>set (pickedIndices (fusionPicks nvidia sysfs)). i < length sysfs)
     \<and> (\<forall>j k i. j < length nvidia \<and> k < length nvidia
            \<and> fusionPicks nvidia sysfs ! j = Some i \<and> fusionPicks nvidia sysfs ! k = Some i
            \<longrightarrow> j = k)
     \<and> (\<forall>j<length nvidia. fst (fusionAssignment nvidia sysfs) ! j =
           (case fusionPicks nvidia sysfs ! j of
              None \<Rightarrow> nvidia ! j
            | Some i \<Rightarrow> supplementGpu (nvidia ! j) (sysfs ! i)))
     \<and> length (fuseGpus_v2 fallback nvidia sysfs) = length nvidia
     \<and> distinct (supplements_v2 sysfs)
     \<and> (\<forall>i\<in>set (supplements_v2 sysfs). i < length sysfs)
     \<and> (\<forall>j<length nvidia. fuseGpus_v2 fallback nvidia sysfs ! j =
           applyPowerFallback fallback
             (if j < min (length nvidia) (length (supplements_v2 sysfs))
              then supplementFields (nvidia ! j) (sysfs ! (supplements_v2 sysfs ! j))
              else nvidia ! j))"
proof -
  have len: "length nvidia \<le> length (fuseGpus fallback nvidia sysfs)"
    by (simp add: fuseGpus_length [OF assms(1)])
  have inj: "\<forall>j k i. j < length nvidia \<and> k < length nvidia
            \<and> fusionPicks nvidia sysfs ! j = Some i \<and> fusionPicks nvidia sysfs ! k = Some i
            \<longrightarrow> j = k"
    using fusionPicks_inj [of _ nvidia _ sysfs] by blast
  have v2n: "\<forall>j<length nvidia. fuseGpus_v2 fallback nvidia sysfs ! j =
           applyPowerFallback fallback
             (if j < min (length nvidia) (length (supplements_v2 sysfs))
              then supplementFields (nvidia ! j) (sysfs ! (supplements_v2 sysfs ! j))
              else nvidia ! j)"
    using fuseGpus_v2_nth [OF assms(1), of _ fallback sysfs] by blast
  from len fusionPicks_facts [of nvidia sysfs] inj fuseGpus_v2_length [OF assms(1), of fallback sysfs]
    supplements_v2_distinct [of sysfs] v2n
  show ?thesis
    by (intro conjI) blast+
qed

theorem fusion_supplements_once_witness:
  "fuseGpus SensorsFallbackMetrics_default
     [GpuMetrics_default\<lparr>name := ''GeForce'', source := ''nvidia-smi''\<rparr>]
     [GpuMetrics_default\<lparr>name := ''card0 (Unknown)'', source := ''sysfs'',
                         utilization_percent := Some 30\<rparr>,
      GpuMetrics_default\<lparr>name := ''card1 (Unknown)'', source := ''sysfs'',
                         utilization_percent := Some 40\<rparr>] =
   [GpuMetrics_default\<lparr>name := ''GeForce'', source := ''nvidia-smi'',
                         utilization_percent := Some 30\<rparr>,
    GpuMetrics_default\<lparr>name := ''card1 (Unknown)'', source := ''sysfs'',
                         utilization_percent := Some 40\<rparr>]
   \<and> fusionPicks
     [GpuMetrics_default\<lparr>name := ''GeForce'', source := ''nvidia-smi''\<rparr>]
     [GpuMetrics_default\<lparr>name := ''card0 (Unknown)'', source := ''sysfs'',
                         utilization_percent := Some 30\<rparr>,
      GpuMetrics_default\<lparr>name := ''card1 (Unknown)'', source := ''sysfs'',
                         utilization_percent := Some 40\<rparr>] = [Some 0]
   \<and> length (fuseGpus_v2 SensorsFallbackMetrics_default
     [GpuMetrics_default\<lparr>name := ''GeForce'', source := ''nvidia-smi''\<rparr>]
     [GpuMetrics_default\<lparr>name := ''card0 (Unknown)'', source := ''sysfs'',
                         utilization_percent := Some 30\<rparr>,
      GpuMetrics_default\<lparr>name := ''card1 (Unknown)'', source := ''sysfs'',
                         utilization_percent := Some 40\<rparr>]) = 1"
proof -
  have ne: "[GpuMetrics_default\<lparr>name := ''GeForce'', source := ''nvidia-smi''\<rparr>] \<noteq> []"
    "[GpuMetrics_default\<lparr>name := ''card0 (Unknown)'', source := ''sysfs'',
                         utilization_percent := Some 30\<rparr>,
      GpuMetrics_default\<lparr>name := ''card1 (Unknown)'', source := ''sysfs'',
                         utilization_percent := Some 40\<rparr>] \<noteq> []"
    by simp_all
  show ?thesis
    using fusion_supplements_once [OF ne, of SensorsFallbackMetrics_default]
      fuseGpus_one_two assignment_one_two
    by (simp add: fusionPicks_def)
qed

text \<open>
  C5, as the code has it. When the tool reports at least one GPU, the fusion of
  \<^verbatim>\<open>src/metrics/gpu.cpp\<close> returns the merged tool records and every sysfs record that
  supplemented none of them, ranked: each sysfs record is merged into a tool record of
  the result or is a record of the result itself, and the result has one record per tool
  record and one per unconsumed sysfs record. The fusion of the second copy returns one
  record per tool record and nothing else.
\<close>

theorem fusion_appends_unconsumed:
  assumes "nvidia \<noteq> []"
  shows
    "(\<forall>i<length sysfs.
        (\<exists>j<length nvidia. fusionPicks nvidia sysfs ! j = Some i
            \<and> applyPowerFallback fallback (supplementGpu (nvidia ! j) (sysfs ! i))
                 \<in> set (fuseGpus fallback nvidia sysfs))
        \<or> (i \<notin> set (pickedIndices (fusionPicks nvidia sysfs))
            \<and> sysfs ! i \<in> set (fuseGpus fallback nvidia sysfs)))
     \<and> length (fuseGpus fallback nvidia sysfs) =
         length nvidia + (length sysfs - length (pickedIndices (fusionPicks nvidia sysfs)))
     \<and> fuseGpus fallback nvidia sysfs =
         stable_sort gpuRankedBefore
           (map (applyPowerFallback fallback) (fst (fusionAssignment nvidia sysfs))
            @ map (\<lambda>i. sysfs ! i)
                (filter (\<lambda>i. i \<notin> set (pickedIndices (fusionPicks nvidia sysfs)))
                   [0..<length sysfs]))
     \<and> (\<forall>z. count_list (fuseGpus fallback nvidia sysfs) z =
           count_list (map (applyPowerFallback fallback) (fst (fusionAssignment nvidia sysfs))) z
           + count_list (map (\<lambda>i. sysfs ! i)
                (filter (\<lambda>i. i \<notin> set (pickedIndices (fusionPicks nvidia sysfs)))
                   [0..<length sysfs])) z)
     \<and> length (fuseGpus_v2 fallback nvidia sysfs) = length nvidia
     \<and> (rows \<noteq> [] \<longrightarrow>
          collectGpus fallback rows entries =
            fuseGpus fallback (collectGpusFromNvidiaSmi rows) (collectGpusFromSysfs fallback entries)
          \<and> collectGpusFromNvidiaSmi rows \<noteq> [])"
proof -
  let ?out = "fuseGpus fallback nvidia sysfs"
  let ?picks = "fusionPicks nvidia sysfs"
  let ?merged = "fst (fusionAssignment nvidia sysfs)"
  note u = fuseGpus_unfold [OF assms, of fallback sysfs]
  obtain merged picks st where a: "fusionAssignment nvidia sysfs = (merged, picks, st)"
    by (cases "fusionAssignment nvidia sysfs")
  have lm: "length ?merged = length nvidia"
    using fusionAssignment_inv [OF a] by (simp add: a)
  have each: "(\<exists>j<length nvidia. ?picks ! j = Some i
            \<and> applyPowerFallback fallback (supplementGpu (nvidia ! j) (sysfs ! i)) \<in> set ?out)
        \<or> (i \<notin> set (pickedIndices ?picks) \<and> sysfs ! i \<in> set ?out)"
    if i: "i < length sysfs" for i
  proof (cases "i \<in> set (pickedIndices ?picks)")
    case True
    from picked_nth_ex [OF True] obtain j where j: "j < length ?picks" "?picks ! j = Some i"
      by blast
    have jl: "j < length nvidia" using j(1) fusionPicks_facts [of nvidia sysfs] by simp
    have "?merged ! j = supplementGpu (nvidia ! j) (sysfs ! i)"
      using fusionPicks_facts [of nvidia sysfs] jl j(2) by simp
    moreover have "?merged ! j \<in> set ?merged" using jl lm by simp
    ultimately have "applyPowerFallback fallback (supplementGpu (nvidia ! j) (sysfs ! i)) \<in> set ?out"
      by (auto simp: u set_stable_sort)
    with jl j(2) show ?thesis by blast
  next
    case False
    then have "sysfs ! i \<in> set ?out"
      using i by (simp add: u set_stable_sort)
    with False show ?thesis by blast
  qed
  have cnt: "\<forall>z. count_list ?out z =
           count_list (map (applyPowerFallback fallback) ?merged) z
           + count_list (map (\<lambda>i. sysfs ! i)
                (filter (\<lambda>i. i \<notin> set (pickedIndices ?picks)) [0..<length sysfs])) z"
    by (simp add: u count_stable_sort)
  have col: "rows \<noteq> [] \<longrightarrow>
          collectGpus fallback rows entries =
            fuseGpus fallback (collectGpusFromNvidiaSmi rows) (collectGpusFromSysfs fallback entries)
          \<and> collectGpusFromNvidiaSmi rows \<noteq> []"
    by (simp add: collectGpus_def nvidiaSmi_nonempty)
  from each fuseGpus_length [OF assms, of fallback sysfs] u cnt
    fuseGpus_v2_length [OF assms, of fallback sysfs] col
  show ?thesis
    by (intro conjI) blast+
qed

theorem fusion_appends_unconsumed_witness:
  "collectGpus SensorsFallbackMetrics_default [bareRow ''GeForce'']
     [(bareCard ''card0'')\<lparr>gpu_busy_percent := Some 30\<rparr>,
      (bareCard ''card1'')\<lparr>gpu_busy_percent := Some 40\<rparr>] =
   [GpuMetrics_default\<lparr>name := ''GeForce'', source := ''nvidia-smi'',
                         utilization_percent := Some 30\<rparr>,
    GpuMetrics_default\<lparr>name := ''card1 (Unknown)'', source := ''sysfs'',
                         utilization_percent := Some 40\<rparr>]
   \<and> length (fuseGpus SensorsFallbackMetrics_default
        (collectGpusFromNvidiaSmi [bareRow ''GeForce''])
        (collectGpusFromSysfs SensorsFallbackMetrics_default
           [(bareCard ''card0'')\<lparr>gpu_busy_percent := Some 30\<rparr>,
            (bareCard ''card1'')\<lparr>gpu_busy_percent := Some 40\<rparr>])) = 2"
proof -
  have ne: "collectGpusFromNvidiaSmi [bareRow ''GeForce''] \<noteq> []" "[bareRow ''GeForce''] \<noteq> []"
    by (simp_all add: collectGpusFromNvidiaSmi_def)
  note t = fusion_appends_unconsumed [OF ne(1), of
        "collectGpusFromSysfs SensorsFallbackMetrics_default
           [(bareCard ''card0'')\<lparr>gpu_busy_percent := Some 30\<rparr>,
            (bareCard ''card1'')\<lparr>gpu_busy_percent := Some 40\<rparr>]"
        SensorsFallbackMetrics_default "[bareRow ''GeForce'']"
        "[(bareCard ''card0'')\<lparr>gpu_busy_percent := Some 30\<rparr>,
          (bareCard ''card1'')\<lparr>gpu_busy_percent := Some 40\<rparr>]"]
  from t ne(2) have eq: "fuseGpus SensorsFallbackMetrics_default
        (collectGpusFromNvidiaSmi [bareRow ''GeForce''])
        (collectGpusFromSysfs SensorsFallbackMetrics_default
           [(bareCard ''card0'')\<lparr>gpu_busy_percent := Some 30\<rparr>,
            (bareCard ''card1'')\<lparr>gpu_busy_percent := Some 40\<rparr>]) =
     collectGpus SensorsFallbackMetrics_default [bareRow ''GeForce'']
       [(bareCard ''card0'')\<lparr>gpu_busy_percent := Some 30\<rparr>,
        (bareCard ''card1'')\<lparr>gpu_busy_percent := Some 40\<rparr>]"
    by simp
  show ?thesis
    by (simp only: eq collectGpus_one_two) simp
qed

text \<open>
  In the second copy a sysfs record that supplemented no tool record is lost: with one
  tool record and the sysfs records of \<open>card0\<close> and \<open>card1\<close>, the record of \<open>card1\<close> is
  neither merged nor in the result.
\<close>

theorem fusion_appends_unconsumed_counterexample:
  "collectGpusFromSysfs_v2 SensorsFallbackMetrics_default
     [(bareCard ''card0'')\<lparr>gpu_busy_percent := Some 30\<rparr>,
      (bareCard ''card1'')\<lparr>gpu_busy_percent := Some 40\<rparr>] =
   [GpuMetrics_default\<lparr>name := ''card0 (Unknown)'', source := ''sysfs'',
                         utilization_percent := Some 30\<rparr>,
    GpuMetrics_default\<lparr>name := ''card1 (Unknown)'', source := ''sysfs'',
                         utilization_percent := Some 40\<rparr>]
   \<and> collectGpus_v2 SensorsFallbackMetrics_default [bareRow ''GeForce'']
     [(bareCard ''card0'')\<lparr>gpu_busy_percent := Some 30\<rparr>,
      (bareCard ''card1'')\<lparr>gpu_busy_percent := Some 40\<rparr>] =
   [GpuMetrics_default\<lparr>name := ''GeForce'', source := ''nvidia-smi'',
                         utilization_percent := Some 30\<rparr>]
   \<and> GpuMetrics_default\<lparr>name := ''card1 (Unknown)'', source := ''sysfs'',
                           utilization_percent := Some 40\<rparr>
       \<notin> set (collectGpus_v2 SensorsFallbackMetrics_default [bareRow ''GeForce'']
               [(bareCard ''card0'')\<lparr>gpu_busy_percent := Some 30\<rparr>,
                (bareCard ''card1'')\<lparr>gpu_busy_percent := Some 40\<rparr>])"
  unfolding sysfs_v2_two_busy collectGpus_v2_one_two
  by (simp add: GpuMetrics_default_def)




end
